theory Spec2Isabelle
  imports Main
begin

section \<open>Go library functions used by the client\<close>

text \<open>
  Go strings are byte sequences; they are modelled as \<open>string\<close> (a list of characters).
  The functions of this section are the ones of Go's \<open>strings\<close> and \<open>path/filepath\<close>
  packages that \<open>pkg/miniox\<close> calls, written out for the arguments it passes.
\<close>

text \<open>The operating systems Go distinguishes for \<open>filepath.Separator\<close>.\<close>

datatype goos = Unix | Windows

definition Separator :: "goos \<Rightarrow> char" where
  "Separator os = (case os of Unix \<Rightarrow> CHR ''/'' | Windows \<Rightarrow> CHR 0x5C)"

text \<open>\<open>strings.ReplaceAll\<close> for a one-byte pattern and a one-byte replacement.\<close>

definition ReplaceAll :: "string \<Rightarrow> char \<Rightarrow> char \<Rightarrow> string" where
  "ReplaceAll s old new = map (\<lambda>c. if c = old then new else c) s"

text \<open>
  \<open>filepath.ToSlash\<close>: returns the path unchanged when the separator is the slash,
  and replaces every separator by a slash otherwise.
\<close>

definition ToSlash :: "goos \<Rightarrow> string \<Rightarrow> string" where
  "ToSlash os path =
     (if Separator os = CHR ''/'' then path
      else ReplaceAll path (Separator os) (CHR ''/''))"

text \<open>\<open>strings.Trim s cutset\<close>: drops the leading and trailing bytes that are in the cutset.\<close>

definition Trim :: "string \<Rightarrow> string \<Rightarrow> string" where
  "Trim s cutset =
     rev (dropWhile (\<lambda>c. c \<in> set cutset) (rev (dropWhile (\<lambda>c. c \<in> set cutset) s)))"

definition HasPrefix :: "string \<Rightarrow> string \<Rightarrow> bool" where
  "HasPrefix s pre = (length pre \<le> length s \<and> take (length pre) s = pre)"

definition HasSuffix :: "string \<Rightarrow> string \<Rightarrow> bool" where
  "HasSuffix s suf = (length suf \<le> length s \<and> drop (length s - length suf) s = suf)"

definition TrimPrefix :: "string \<Rightarrow> string \<Rightarrow> string" where
  "TrimPrefix s pre = (if HasPrefix s pre then drop (length pre) s else s)"

definition TrimSuffix :: "string \<Rightarrow> string \<Rightarrow> string" where
  "TrimSuffix s suf = (if HasSuffix s suf then take (length s - length suf) s else s)"

text \<open>\<open>strings.Contains s substr\<close>: \<open>substr\<close> occurs in \<open>s\<close> at some position.\<close>

fun Contains :: "string \<Rightarrow> string \<Rightarrow> bool" where
  "Contains [] substr = (substr = [])"
| "Contains (c # s) substr = (HasPrefix (c # s) substr \<or> Contains s substr)"

text \<open>
  \<open>strings.Split s sep\<close> for a one-byte separator: the pieces between the separators,
  so that the empty string gives one empty piece and \<open>n\<close> separators give \<open>n + 1\<close> pieces.
\<close>

fun Split :: "string \<Rightarrow> char \<Rightarrow> string list" where
  "Split [] sep = [[]]"
| "Split (c # s) sep =
     (if c = sep then [] # Split s sep
      else (case Split s sep of
              [] \<Rightarrow> [[c]]
            | piece # pieces \<Rightarrow> (c # piece) # pieces))"


section \<open>The client and its path namespace (client.go)\<close>

text \<open>
  Errors are values. The two validation errors are the ones \<open>ValidatePath\<close> builds
  with \<open>fmt.Errorf\<close> (``path traversal detected: p'' and ``absolute paths are not
  allowed: p''); each carries the offending path. \<open>ErrorResponse\<close> is the storage
  collaborator's error with its code and message, \<open>OtherError\<close> any other error
  value (network, context), \<open>WrappedSourceError\<close> the error \<open>ComposeObject\<close> builds
  around a source path's validation error, and \<open>PublicURLNotConfigured\<close> the error of
  \<open>GetPublicURL\<close>.
\<close>

datatype error =
    TraversalError string
  | AbsolutePathError string
  | ErrorResponse string string
  | OtherError string
  | WrappedSourceError string error
  | PublicURLNotConfigured

text \<open>
  \<open>minio.ToErrorResponse(err).Code\<close>: the code of an \<open>ErrorResponse\<close>, and the empty
  code of the zero response for every other error.
\<close>

fun ToErrorResponse_Code :: "error \<Rightarrow> string" where
  "ToErrorResponse_Code (ErrorResponse code msg) = code"
| "ToErrorResponse_Code _ = []"

text \<open>The \<open>Client\<close> struct; its \<open>minio\<close> field is the storage collaborator, passed separately.\<close>

record Client =
  bucketName :: string
  baseDirPrefix :: string
  publicBaseURL :: string

definition buildPath :: "goos \<Rightarrow> Client \<Rightarrow> string \<Rightarrow> string" where
  "buildPath os c path =
     (let cleanPath = Trim (ToSlash os path) ''/'' in
      if baseDirPrefix c = [] then
        (if cleanPath = [] then [] else cleanPath)
      else
        (let cleanPrefix = Trim (ToSlash os (baseDirPrefix c)) ''/'' in
         if cleanPath = [] then cleanPrefix
         else cleanPrefix @ ''/'' @ cleanPath))"

definition stripBasePath :: "goos \<Rightarrow> Client \<Rightarrow> string \<Rightarrow> string" where
  "stripBasePath os c fullPath =
     (if baseDirPrefix c = [] then fullPath
      else
        (let cleanPrefix = Trim (ToSlash os (baseDirPrefix c)) ''/'';
             cleanFullPath = ToSlash os fullPath in
         if HasPrefix cleanFullPath (cleanPrefix @ ''/'') then
           TrimPrefix cleanFullPath (cleanPrefix @ ''/'')
         else if cleanFullPath = cleanPrefix then []
         else cleanFullPath))"

text \<open>\<open>ValidatePath\<close> does not read its receiver; \<open>None\<close> is the \<open>nil\<close> error.\<close>

definition ValidatePath :: "goos \<Rightarrow> string \<Rightarrow> error option" where
  "ValidatePath os path =
     (let cleanPath = ToSlash os path in
      if Contains cleanPath ''..'' then Some (TraversalError path)
      else if HasPrefix cleanPath ''/'' then Some (AbsolutePathError path)
      else None)"

text \<open>
  The normalisation the specification names: separators canonicalised to forward
  slashes, leading and trailing slashes trimmed. It follows the specification's words
  and is what the round trip is compared with.
\<close>

definition normalize :: "goos \<Rightarrow> string \<Rightarrow> string" where
  "normalize os p = Trim (ToSlash os p) ''/''"

text \<open>A path has a parent-directory segment when one of its slash-separated pieces is \<open>..\<close>.\<close>

definition has_parent_segment :: "string \<Rightarrow> bool" where
  "has_parent_segment p = (''..'' \<in> set (Split p (CHR ''/'')))"


section \<open>The storage collaborator\<close>

text \<open>
  The MinIO client the wrapper delegates to is outside the repository. It is modelled
  as a record of handlers over an arbitrary backend state \<open>'s\<close>: one typed handler for
  each call whose result the wrapper inspects or rewrites, and \<open>forward\<close> for the calls
  whose result is handed back as it is. Option structs and results the wrapper only
  passes along are \<open>opaque\<close>. Channels are finite lists of their entries.
\<close>

type_synonym opaque = string

record ObjectInfo =
  Key :: string
  Size :: int
  ETag :: string
  Err :: "error option"

record UploadInfo =
  UploadBucket :: string
  UploadKey :: string
  UploadETag :: string
  UploadSize :: int

record RemoveObjectError =
  ObjectName :: string
  VersionID :: string
  RemoveErr :: "error option"

record CopyDestOptions =
  Bucket :: string
  Object :: string
  Encryption :: opaque
  UserMetadata :: "(string \<times> string) list"
  ReplaceMetadata :: bool
  UserTags :: "(string \<times> string) list"
  ReplaceTags :: bool
  LegalHold :: string
  Mode :: string

record CopySrcOptions =
  SrcBucket :: string
  SrcObject :: string
  SrcVersionID :: string

record ListObjectsOptions =
  Prefix :: string
  Recursive :: bool

record PostPolicy =
  PolicyBucket :: string
  PolicyKey :: string
  PolicyExpires :: int
  PolicyContentType :: string
  PolicyContentLengthRange :: "(int \<times> int) option"

text \<open>The zero values Go gives to a struct literal's unnamed fields.\<close>

definition ObjectInfo_zero :: ObjectInfo where
  "ObjectInfo_zero = \<lparr>Key = [], Size = 0, ETag = [], Err = None\<rparr>"

definition CopyDestOptions_zero :: CopyDestOptions where
  "CopyDestOptions_zero =
     \<lparr>Bucket = [], Object = [], Encryption = [], UserMetadata = [], ReplaceMetadata = False,
      UserTags = [], ReplaceTags = False, LegalHold = [], Mode = []\<rparr>"

definition CopySrcOptions_zero :: CopySrcOptions where
  "CopySrcOptions_zero = \<lparr>SrcBucket = [], SrcObject = [], SrcVersionID = []\<rparr>"

definition NewPostPolicy :: PostPolicy where
  "NewPostPolicy =
     \<lparr>PolicyBucket = [], PolicyKey = [], PolicyExpires = 0, PolicyContentType = [],
      PolicyContentLengthRange = None\<rparr>"

definition no_opts :: opaque where
  "no_opts = []"

text \<open>The requests that reach the collaborator, with the arguments the wrapper passes.\<close>

datatype request =
    ReqStatObject string string opaque
  | ReqGetObject string string opaque
  | ReqPutObject string string "string option" int opaque
  | ReqRemoveObject string string opaque
  | ReqListObjects string ListObjectsOptions
  | ReqRemoveObjects string "ObjectInfo list"
  | ReqCopyObject CopyDestOptions CopySrcOptions
  | ReqComposeObject CopyDestOptions "CopySrcOptions list"
  | ReqPresignedGetObject string string int "opaque option"
  | ReqPresignedPutObject string string int
  | ReqPresignedHeadObject string string int opaque
  | ReqPresignedPostPolicy PostPolicy
  | ReqGetObjectTagging string string opaque
  | ReqPutObjectTagging string string opaque opaque
  | ReqRemoveObjectTagging string string opaque
  | ReqGetObjectRetention string string string
  | ReqPutObjectRetention string string opaque
  | ReqGetObjectLegalHold string string opaque
  | ReqPutObjectLegalHold string string opaque
  | ReqSelectObjectContent string string opaque

record 's Backend =
  statObject :: "string \<Rightarrow> string \<Rightarrow> opaque \<Rightarrow> 's \<Rightarrow> (error + ObjectInfo) \<times> 's"
  putObject :: "string \<Rightarrow> string \<Rightarrow> string option \<Rightarrow> int \<Rightarrow> opaque \<Rightarrow> 's \<Rightarrow> (error + UploadInfo) \<times> 's"
  copyObject :: "CopyDestOptions \<Rightarrow> CopySrcOptions \<Rightarrow> 's \<Rightarrow> (error + UploadInfo) \<times> 's"
  composeObject :: "CopyDestOptions \<Rightarrow> CopySrcOptions list \<Rightarrow> 's \<Rightarrow> (error + UploadInfo) \<times> 's"
  listObjects :: "string \<Rightarrow> ListObjectsOptions \<Rightarrow> 's \<Rightarrow> ObjectInfo list \<times> 's"
  removeObjects :: "string \<Rightarrow> ObjectInfo list \<Rightarrow> 's \<Rightarrow> RemoveObjectError list \<times> 's"
  forward :: "request \<Rightarrow> 's \<Rightarrow> (error + opaque) \<times> 's"

text \<open>
  A run of the wrapper threads the backend state and the list of the requests issued so
  far. \<open>issue\<close> hands one request to a handler and appends it to that list.
\<close>

type_synonym 's world = "'s \<times> request list"

definition issue :: "request \<Rightarrow> ('s \<Rightarrow> 'r \<times> 's) \<Rightarrow> 's world \<Rightarrow> 'r \<times> 's world" where
  "issue req handler w =
     (case handler (fst w) of (r, s') \<Rightarrow> (r, (s', snd w @ [req])))"

definition call_forward :: "'s Backend \<Rightarrow> request \<Rightarrow> 's world \<Rightarrow> (error + opaque) \<times> 's world" where
  "call_forward be req w = issue req (forward be req) w"

text \<open>The \<open>error\<close> result of a call that returns nothing else.\<close>

definition err_of :: "error + 'a \<Rightarrow> error option" where
  "err_of r = (case r of Inl err \<Rightarrow> Some err | Inr _ \<Rightarrow> None)"

definition only_error ::
  "(error + opaque) \<times> 's world \<Rightarrow> error option \<times> 's world" where
  "only_error rw = (case rw of (r, w') \<Rightarrow> (err_of r, w'))"


section \<open>Object operations (objects.go)\<close>

text \<open>
  A Go function that returns a value and an error is a function into a sum: \<open>Inl\<close> is the
  error, and the value that Go returns next to an error is not kept. A function that
  returns only an error returns \<open>error option\<close>.
\<close>

definition StatObject ::
  "goos \<Rightarrow> Client \<Rightarrow> 's Backend \<Rightarrow> string \<Rightarrow> opaque \<Rightarrow> 's world \<Rightarrow> (error + ObjectInfo) \<times> 's world" where
  "StatObject os c be objectPath opts w =
     (case ValidatePath os objectPath of
        Some err \<Rightarrow> (Inl err, w)
      | None \<Rightarrow>
          (let fullPath = buildPath os c objectPath in
           case issue (ReqStatObject (bucketName c) fullPath opts)
                  (statObject be (bucketName c) fullPath opts) w of
             (Inl err, w') \<Rightarrow> (Inl err, w')
           | (Inr info, w') \<Rightarrow> (Inr (info\<lparr>Key := stripBasePath os c (Key info)\<rparr>), w')))"

definition GetObject ::
  "goos \<Rightarrow> Client \<Rightarrow> 's Backend \<Rightarrow> string \<Rightarrow> opaque \<Rightarrow> 's world \<Rightarrow> (error + opaque) \<times> 's world" where
  "GetObject os c be objectPath opts w =
     (case ValidatePath os objectPath of
        Some err \<Rightarrow> (Inl err, w)
      | None \<Rightarrow>
          (let fullPath = buildPath os c objectPath in
           call_forward be (ReqGetObject (bucketName c) fullPath opts) w))"

definition PutObject ::
  "goos \<Rightarrow> Client \<Rightarrow> 's Backend \<Rightarrow> string \<Rightarrow> string option \<Rightarrow> int \<Rightarrow> opaque \<Rightarrow> 's world
     \<Rightarrow> (error + UploadInfo) \<times> 's world" where
  "PutObject os c be objectPath reader objectSize opts w =
     (case ValidatePath os objectPath of
        Some err \<Rightarrow> (Inl err, w)
      | None \<Rightarrow>
          (let fullPath = buildPath os c objectPath in
           case issue (ReqPutObject (bucketName c) fullPath reader objectSize opts)
                  (putObject be (bucketName c) fullPath reader objectSize opts) w of
             (Inl err, w') \<Rightarrow> (Inl err, w')
           | (Inr uploadInfo, w') \<Rightarrow>
               (Inr (uploadInfo\<lparr>UploadKey := stripBasePath os c (UploadKey uploadInfo)\<rparr>), w')))"

definition RemoveObject ::
  "goos \<Rightarrow> Client \<Rightarrow> 's Backend \<Rightarrow> string \<Rightarrow> opaque \<Rightarrow> 's world \<Rightarrow> error option \<times> 's world" where
  "RemoveObject os c be objectPath opts w =
     (case ValidatePath os objectPath of
        Some err \<Rightarrow> (Some err, w)
      | None \<Rightarrow>
          (let fullPath = buildPath os c objectPath in
           only_error (call_forward be (ReqRemoveObject (bucketName c) fullPath opts) w)))"

text \<open>
  \<open>ListObjects\<close> returns a channel. On a validation error it holds the one entry that
  carries the error; otherwise a relay copies the collaborator's entries, with the key of
  every entry that has no error stripped.
\<close>

definition ListObjects ::
  "goos \<Rightarrow> Client \<Rightarrow> 's Backend \<Rightarrow> string \<Rightarrow> bool \<Rightarrow> 's world \<Rightarrow> ObjectInfo list \<times> 's world" where
  "ListObjects os c be prefix recursive w =
     (case (if prefix \<noteq> [] then ValidatePath os prefix else None) of
        Some err \<Rightarrow> ([ObjectInfo_zero\<lparr>Err := Some err\<rparr>], w)
      | None \<Rightarrow>
          (let fullPrefix = buildPath os c prefix;
               opts = \<lparr>Prefix = fullPrefix, Recursive = recursive\<rparr> in
           case issue (ReqListObjects (bucketName c) opts)
                  (listObjects be (bucketName c) opts) w of
             (objectCh, w') \<Rightarrow>
               (map (\<lambda>objectInfo.
                       if Err objectInfo = None
                       then objectInfo\<lparr>Key := stripBasePath os c (Key objectInfo)\<rparr>
                       else objectInfo) objectCh, w')))"

definition CopyObject ::
  "goos \<Rightarrow> Client \<Rightarrow> 's Backend \<Rightarrow> string \<Rightarrow> string \<Rightarrow> CopyDestOptions \<Rightarrow> 's world
     \<Rightarrow> (error + UploadInfo) \<times> 's world" where
  "CopyObject os c be destObjectPath srcObjectPath opts w =
     (case ValidatePath os destObjectPath of
        Some err \<Rightarrow> (Inl err, w)
      | None \<Rightarrow>
     (case ValidatePath os srcObjectPath of
        Some err \<Rightarrow> (Inl err, w)
      | None \<Rightarrow>
          (let fullDestPath = buildPath os c destObjectPath;
               fullSrcPath = buildPath os c srcObjectPath;
               srcOpts = CopySrcOptions_zero\<lparr>SrcBucket := bucketName c, SrcObject := fullSrcPath\<rparr>;
               dstOpts = CopyDestOptions_zero\<lparr>Bucket := bucketName c, Object := fullDestPath\<rparr> in
           case issue (ReqCopyObject dstOpts srcOpts) (copyObject be dstOpts srcOpts) w of
             (Inl err, w') \<Rightarrow> (Inl err, w')
           | (Inr uploadInfo, w') \<Rightarrow>
               (Inr (uploadInfo\<lparr>UploadKey := stripBasePath os c (UploadKey uploadInfo)\<rparr>), w'))))"


section \<open>Presigned URLs and composition (urls.go)\<close>

text \<open>Durations and instants are integers; \<open>nil\<close> request parameters are \<open>None\<close>.\<close>

definition GetPresignedURL ::
  "goos \<Rightarrow> Client \<Rightarrow> 's Backend \<Rightarrow> string \<Rightarrow> int \<Rightarrow> 's world \<Rightarrow> (error + opaque) \<times> 's world" where
  "GetPresignedURL os c be objectPath expiry w =
     (case ValidatePath os objectPath of
        Some err \<Rightarrow> (Inl err, w)
      | None \<Rightarrow>
          (let fullPath = buildPath os c objectPath in
           call_forward be (ReqPresignedGetObject (bucketName c) fullPath expiry None) w))"

definition GetPresignedURLWithParams ::
  "goos \<Rightarrow> Client \<Rightarrow> 's Backend \<Rightarrow> string \<Rightarrow> int \<Rightarrow> opaque \<Rightarrow> 's world
     \<Rightarrow> (error + opaque) \<times> 's world" where
  "GetPresignedURLWithParams os c be objectPath expiry reqParams w =
     (case ValidatePath os objectPath of
        Some err \<Rightarrow> (Inl err, w)
      | None \<Rightarrow>
          (let fullPath = buildPath os c objectPath in
           call_forward be
             (ReqPresignedGetObject (bucketName c) fullPath expiry (Some reqParams)) w))"

definition GetPresignedPutURL ::
  "goos \<Rightarrow> Client \<Rightarrow> 's Backend \<Rightarrow> string \<Rightarrow> int \<Rightarrow> 's world \<Rightarrow> (error + opaque) \<times> 's world" where
  "GetPresignedPutURL os c be objectPath expiry w =
     (case ValidatePath os objectPath of
        Some err \<Rightarrow> (Inl err, w)
      | None \<Rightarrow>
          (let fullPath = buildPath os c objectPath in
           call_forward be (ReqPresignedPutObject (bucketName c) fullPath expiry) w))"

definition GetPresignedPostPolicy ::
  "'s Backend \<Rightarrow> PostPolicy \<Rightarrow> 's world \<Rightarrow> (error + opaque) \<times> 's world" where
  "GetPresignedPostPolicy be policy w = call_forward be (ReqPresignedPostPolicy policy) w"

text \<open>
  \<open>GetPublicURL\<close> issues no request. \<open>url.Parse\<close> is a parameter; the string it is
  given is \<open>fmt.Sprintf("%s/%s/%s", baseURL, bucketName, fullPath)\<close>.
\<close>

definition GetPublicURL ::
  "goos \<Rightarrow> Client \<Rightarrow> (string \<Rightarrow> error + opaque) \<Rightarrow> string \<Rightarrow> error + opaque" where
  "GetPublicURL os c parse objectPath =
     (if publicBaseURL c = [] then Inl PublicURLNotConfigured
      else
        (case ValidatePath os objectPath of
           Some err \<Rightarrow> Inl err
         | None \<Rightarrow>
             (let fullPath = buildPath os c objectPath;
                  baseURL = TrimSuffix (publicBaseURL c) ''/'';
                  publicURLString = baseURL @ ''/'' @ bucketName c @ ''/'' @ fullPath in
              parse publicURLString)))"

text \<open>
  The loop of \<open>ComposeObject\<close> over its sources: a source of the configured bucket is
  validated and its key rebuilt, a source of another bucket is left as it is. The first
  invalid source ends the call with the wrapped error.
\<close>

fun ComposeObject_sources ::
  "goos \<Rightarrow> Client \<Rightarrow> CopySrcOptions list \<Rightarrow> error + CopySrcOptions list" where
  "ComposeObject_sources os c [] = Inr []"
| "ComposeObject_sources os c (src # srcObjects) =
     (if SrcBucket src = bucketName c then
        (case ValidatePath os (SrcObject src) of
           Some err \<Rightarrow> Inl (WrappedSourceError (SrcObject src) err)
         | None \<Rightarrow>
             (case ComposeObject_sources os c srcObjects of
                Inl err \<Rightarrow> Inl err
              | Inr rest \<Rightarrow> Inr (src\<lparr>SrcObject := buildPath os c (SrcObject src)\<rparr> # rest)))
      else
        (case ComposeObject_sources os c srcObjects of
           Inl err \<Rightarrow> Inl err
         | Inr rest \<Rightarrow> Inr (src # rest)))"

definition ComposeObject ::
  "goos \<Rightarrow> Client \<Rightarrow> 's Backend \<Rightarrow> string \<Rightarrow> CopySrcOptions list \<Rightarrow> CopyDestOptions \<Rightarrow> 's world
     \<Rightarrow> (error + UploadInfo) \<times> 's world" where
  "ComposeObject os c be destObjectPath srcObjects opts w =
     (case ValidatePath os destObjectPath of
        Some err \<Rightarrow> (Inl err, w)
      | None \<Rightarrow>
          (let fullDestPath = buildPath os c destObjectPath in
           case ComposeObject_sources os c srcObjects of
             Inl err \<Rightarrow> (Inl err, w)
           | Inr srcs \<Rightarrow>
               (let opts' = opts\<lparr>Bucket := bucketName c, Object := fullDestPath\<rparr> in
                case issue (ReqComposeObject opts' srcs) (composeObject be opts' srcs) w of
                  (Inl err, w') \<Rightarrow> (Inl err, w')
                | (Inr uploadInfo, w') \<Rightarrow>
                    (Inr (uploadInfo\<lparr>UploadKey := stripBasePath os c (UploadKey uploadInfo)\<rparr>),
                     w'))))"

definition PresignedGetObject ::
  "goos \<Rightarrow> Client \<Rightarrow> 's Backend \<Rightarrow> string \<Rightarrow> int \<Rightarrow> opaque \<Rightarrow> 's world
     \<Rightarrow> (error + opaque) \<times> 's world" where
  "PresignedGetObject os c be objectPath expiry reqParams w =
     GetPresignedURLWithParams os c be objectPath expiry reqParams w"

definition PresignedPutObject ::
  "goos \<Rightarrow> Client \<Rightarrow> 's Backend \<Rightarrow> string \<Rightarrow> int \<Rightarrow> 's world \<Rightarrow> (error + opaque) \<times> 's world" where
  "PresignedPutObject os c be objectPath expiry w =
     GetPresignedPutURL os c be objectPath expiry w"

definition PresignedHeadObject ::
  "goos \<Rightarrow> Client \<Rightarrow> 's Backend \<Rightarrow> string \<Rightarrow> int \<Rightarrow> opaque \<Rightarrow> 's world
     \<Rightarrow> (error + opaque) \<times> 's world" where
  "PresignedHeadObject os c be objectPath expiry reqParams w =
     (case ValidatePath os objectPath of
        Some err \<Rightarrow> (Inl err, w)
      | None \<Rightarrow>
          (let fullPath = buildPath os c objectPath in
           call_forward be (ReqPresignedHeadObject (bucketName c) fullPath expiry reqParams) w))"

text \<open>
  The post policies are built with the library's setters, whose results the wrapper
  discards; they are modelled as field updates. \<open>now\<close> is the value of \<open>time.Now()\<close>.
\<close>

definition PresignedPostPolicyForUpload ::
  "goos \<Rightarrow> Client \<Rightarrow> 's Backend \<Rightarrow> int \<Rightarrow> string \<Rightarrow> int \<Rightarrow> int \<Rightarrow> 's world
     \<Rightarrow> (error + opaque) \<times> 's world" where
  "PresignedPostPolicyForUpload os c be now objectPath expiry maxSize w =
     (case ValidatePath os objectPath of
        Some err \<Rightarrow> (Inl err, w)
      | None \<Rightarrow>
          (let fullPath = buildPath os c objectPath;
               policy = NewPostPolicy\<lparr>PolicyBucket := bucketName c, PolicyKey := fullPath,
                          PolicyExpires := now + expiry\<rparr>;
               policy = (if maxSize > 0
                         then policy\<lparr>PolicyContentLengthRange := Some (1, maxSize)\<rparr>
                         else policy) in
           call_forward be (ReqPresignedPostPolicy policy) w))"

definition PresignedPostPolicyWithConditions ::
  "goos \<Rightarrow> Client \<Rightarrow> 's Backend \<Rightarrow> int \<Rightarrow> string \<Rightarrow> int \<Rightarrow> string \<Rightarrow> int \<Rightarrow> 's world
     \<Rightarrow> (error + opaque) \<times> 's world" where
  "PresignedPostPolicyWithConditions os c be now objectPath expiry contentType maxSize w =
     (case ValidatePath os objectPath of
        Some err \<Rightarrow> (Inl err, w)
      | None \<Rightarrow>
          (let fullPath = buildPath os c objectPath;
               policy = NewPostPolicy\<lparr>PolicyBucket := bucketName c, PolicyKey := fullPath,
                          PolicyExpires := now + expiry\<rparr>;
               policy = (if contentType \<noteq> []
                         then policy\<lparr>PolicyContentType := contentType\<rparr>
                         else policy);
               policy = (if maxSize > 0
                         then policy\<lparr>PolicyContentLengthRange := Some (1, maxSize)\<rparr>
                         else policy) in
           call_forward be (ReqPresignedPostPolicy policy) w))"


section \<open>Folder emulation\<close>

text \<open>\<open>FolderExists\<close> returns Go's pair of a boolean and an error.\<close>

definition FolderExists ::
  "goos \<Rightarrow> Client \<Rightarrow> 's Backend \<Rightarrow> string \<Rightarrow> 's world \<Rightarrow> (bool \<times> error option) \<times> 's world" where
  "FolderExists os c be folderPath w =
     (case ValidatePath os folderPath of
        Some err \<Rightarrow> ((False, Some err), w)
      | None \<Rightarrow>
          (let fullPath = buildPath os c folderPath;
               filePath = fullPath @ ''/.empty'' in
           case issue (ReqStatObject (bucketName c) filePath no_opts)
                  (statObject be (bucketName c) filePath no_opts) w of
             (Inr info, w') \<Rightarrow> ((True, None), w')
           | (Inl err, w') \<Rightarrow>
               (if ToErrorResponse_Code err = ''NoSuchKey'' then ((False, None), w')
                else ((False, Some err), w'))))"

definition CreateFolder ::
  "goos \<Rightarrow> Client \<Rightarrow> 's Backend \<Rightarrow> string \<Rightarrow> 's world \<Rightarrow> error option \<times> 's world" where
  "CreateFolder os c be folderPath w =
     (case ValidatePath os folderPath of
        Some err \<Rightarrow> (Some err, w)
      | None \<Rightarrow>
          (case FolderExists os c be folderPath w of
             ((exists, err), w1) \<Rightarrow>
               (if exists then (None, w1)
                else if err \<noteq> None then (err, w1)
                else
                  (let fullPath = buildPath os c folderPath;
                       filePath = fullPath @ ''/.empty'' in
                   case issue (ReqPutObject (bucketName c) filePath None 0 no_opts)
                          (putObject be (bucketName c) filePath None 0 no_opts) w1 of
                     (r, w2) \<Rightarrow> (err_of r, w2)))))"

text \<open>The loop of \<open>RemoveFolder\<close> over the channel of removal results.\<close>

fun RemoveFolder_loop :: "RemoveObjectError list \<Rightarrow> error option" where
  "RemoveFolder_loop [] = None"
| "RemoveFolder_loop (removeErr # errorCh) =
     (if RemoveErr removeErr \<noteq> None then RemoveErr removeErr
      else RemoveFolder_loop errorCh)"

definition RemoveFolder ::
  "goos \<Rightarrow> Client \<Rightarrow> 's Backend \<Rightarrow> string \<Rightarrow> 's world \<Rightarrow> error option \<times> 's world" where
  "RemoveFolder os c be folderPath w =
     (case ValidatePath os folderPath of
        Some err \<Rightarrow> (Some err, w)
      | None \<Rightarrow>
          (let fullPath = buildPath os c folderPath;
               fullPath = (if \<not> HasSuffix fullPath ''/'' then fullPath @ ''/'' else fullPath);
               opts = \<lparr>Prefix = fullPath, Recursive = True\<rparr> in
           case issue (ReqListObjects (bucketName c) opts)
                  (listObjects be (bucketName c) opts) w of
             (objectCh, w1) \<Rightarrow>
               (case issue (ReqRemoveObjects (bucketName c) objectCh)
                       (removeObjects be (bucketName c) objectCh) w1 of
                  (errorCh, w2) \<Rightarrow> (RemoveFolder_loop errorCh, w2))))"

text \<open>
  The loop of \<open>ListFolders\<close> over the listing, with its two variables: the slice
  \<open>folders\<close> and the map \<open>seenFolders\<close> (a missing key reads as \<open>false\<close>).
\<close>

fun ListFolders_loop ::
  "goos \<Rightarrow> Client \<Rightarrow> string \<Rightarrow> ObjectInfo list \<Rightarrow> string list \<Rightarrow> (string \<Rightarrow> bool)
     \<Rightarrow> error + string list" where
  "ListFolders_loop os c prefix [] folders seenFolders = Inr folders"
| "ListFolders_loop os c prefix (objectInfo # objectCh) folders seenFolders =
     (case Err objectInfo of
        Some err \<Rightarrow> Inl err
      | None \<Rightarrow>
          (let relativePath = stripBasePath os c (Key objectInfo);
               relativePath =
                 (if prefix \<noteq> []
                  then TrimPrefix relativePath (Trim prefix ''/'' @ ''/'')
                  else relativePath);
               parts = Split relativePath (CHR ''/'') in
           if length parts > 1 \<and> parts ! 0 \<noteq> [] then
             (let folderName = parts ! 0 in
              if \<not> seenFolders folderName
              then ListFolders_loop os c prefix objectCh (folders @ [folderName])
                     (seenFolders(folderName := True))
              else ListFolders_loop os c prefix objectCh folders seenFolders)
           else ListFolders_loop os c prefix objectCh folders seenFolders))"

definition ListFolders ::
  "goos \<Rightarrow> Client \<Rightarrow> 's Backend \<Rightarrow> string \<Rightarrow> 's world \<Rightarrow> (error + string list) \<times> 's world" where
  "ListFolders os c be prefix w =
     (case (if prefix \<noteq> [] then ValidatePath os prefix else None) of
        Some err \<Rightarrow> (Inl err, w)
      | None \<Rightarrow>
          (let fullPrefix = buildPath os c prefix;
               fullPrefix = (if fullPrefix \<noteq> [] \<and> \<not> HasSuffix fullPrefix ''/''
                             then fullPrefix @ ''/'' else fullPrefix);
               opts = \<lparr>Prefix = fullPrefix, Recursive = False\<rparr> in
           case issue (ReqListObjects (bucketName c) opts)
                  (listObjects be (bucketName c) opts) w of
             (objectCh, w1) \<Rightarrow>
               (ListFolders_loop os c prefix objectCh [] (\<lambda>_. False), w1)))"



section \<open>Tagging, retention, legal hold and select\<close>

definition GetObjectTagging ::
  "goos \<Rightarrow> Client \<Rightarrow> 's Backend \<Rightarrow> string \<Rightarrow> opaque \<Rightarrow> 's world
     \<Rightarrow> (error + opaque) \<times> 's world" where
  "GetObjectTagging os c be objectPath opts w =
     (case ValidatePath os objectPath of
        Some err \<Rightarrow> (Inl err, w)
      | None \<Rightarrow>
          (let fullPath = buildPath os c objectPath in
           call_forward be (ReqGetObjectTagging (bucketName c) fullPath opts) w))"

definition PutObjectTagging ::
  "goos \<Rightarrow> Client \<Rightarrow> 's Backend \<Rightarrow> string \<Rightarrow> opaque \<Rightarrow> opaque \<Rightarrow> 's world
     \<Rightarrow> error option \<times> 's world" where
  "PutObjectTagging os c be objectPath objectTags opts w =
     (case ValidatePath os objectPath of
        Some err \<Rightarrow> (Some err, w)
      | None \<Rightarrow>
          (let fullPath = buildPath os c objectPath in
           only_error (call_forward be (ReqPutObjectTagging (bucketName c) fullPath objectTags opts) w)))"

definition RemoveObjectTagging ::
  "goos \<Rightarrow> Client \<Rightarrow> 's Backend \<Rightarrow> string \<Rightarrow> opaque \<Rightarrow> 's world
     \<Rightarrow> error option \<times> 's world" where
  "RemoveObjectTagging os c be objectPath opts w =
     (case ValidatePath os objectPath of
        Some err \<Rightarrow> (Some err, w)
      | None \<Rightarrow>
          (let fullPath = buildPath os c objectPath in
           only_error (call_forward be (ReqRemoveObjectTagging (bucketName c) fullPath opts) w)))"

definition GetObjectRetention ::
  "goos \<Rightarrow> Client \<Rightarrow> 's Backend \<Rightarrow> string \<Rightarrow> string \<Rightarrow> 's world
     \<Rightarrow> (error + opaque) \<times> 's world" where
  "GetObjectRetention os c be objectPath versionID w =
     (case ValidatePath os objectPath of
        Some err \<Rightarrow> (Inl err, w)
      | None \<Rightarrow>
          (let fullPath = buildPath os c objectPath in
           call_forward be (ReqGetObjectRetention (bucketName c) fullPath versionID) w))"

definition PutObjectRetention ::
  "goos \<Rightarrow> Client \<Rightarrow> 's Backend \<Rightarrow> string \<Rightarrow> opaque \<Rightarrow> 's world
     \<Rightarrow> error option \<times> 's world" where
  "PutObjectRetention os c be objectPath opts w =
     (case ValidatePath os objectPath of
        Some err \<Rightarrow> (Some err, w)
      | None \<Rightarrow>
          (let fullPath = buildPath os c objectPath in
           only_error (call_forward be (ReqPutObjectRetention (bucketName c) fullPath opts) w)))"

definition GetObjectLegalHold ::
  "goos \<Rightarrow> Client \<Rightarrow> 's Backend \<Rightarrow> string \<Rightarrow> opaque \<Rightarrow> 's world
     \<Rightarrow> (error + opaque) \<times> 's world" where
  "GetObjectLegalHold os c be objectPath opts w =
     (case ValidatePath os objectPath of
        Some err \<Rightarrow> (Inl err, w)
      | None \<Rightarrow>
          (let fullPath = buildPath os c objectPath in
           call_forward be (ReqGetObjectLegalHold (bucketName c) fullPath opts) w))"

definition PutObjectLegalHold ::
  "goos \<Rightarrow> Client \<Rightarrow> 's Backend \<Rightarrow> string \<Rightarrow> opaque \<Rightarrow> 's world
     \<Rightarrow> error option \<times> 's world" where
  "PutObjectLegalHold os c be objectPath opts w =
     (case ValidatePath os objectPath of
        Some err \<Rightarrow> (Some err, w)
      | None \<Rightarrow>
          (let fullPath = buildPath os c objectPath in
           only_error (call_forward be (ReqPutObjectLegalHold (bucketName c) fullPath opts) w)))"

text \<open>
  \<open>SelectObjectContent\<close> does not validate its path. Its source says: ``We don't validate
  path here as SelectObjectContent might work with special paths and we want to maintain
  compatibility with the underlying MinIO client''.
\<close>

definition SelectObjectContent ::
  "goos \<Rightarrow> Client \<Rightarrow> 's Backend \<Rightarrow> string \<Rightarrow> opaque \<Rightarrow> 's world
     \<Rightarrow> (error + opaque) \<times> 's world" where
  "SelectObjectContent os c be objectPath opts w =
     (let fullPath = buildPath os c objectPath in
      call_forward be (ReqSelectObjectContent (bucketName c) fullPath opts) w)"


section \<open>The operations as one interface\<close>

text \<open>
  To speak of every operation at once, a call names an operation of the client together
  with its arguments, and \<open>run\<close> performs it and keeps the error it hands back and the
  resulting world. For \<open>ListObjects\<close> the error is the one of the first entry of the
  returned channel that carries one.
\<close>

datatype call =
    CallStatObject string opaque
  | CallGetObject string opaque
  | CallPutObject string "string option" int opaque
  | CallRemoveObject string opaque
  | CallListObjects string bool
  | CallCopyObject string string CopyDestOptions
  | CallGetPresignedURL string int
  | CallGetPresignedURLWithParams string int opaque
  | CallGetPresignedPutURL string int
  | CallGetPresignedPostPolicy PostPolicy
  | CallGetPublicURL string
  | CallComposeObject string "CopySrcOptions list" CopyDestOptions
  | CallPresignedGetObject string int opaque
  | CallPresignedPutObject string int
  | CallPresignedHeadObject string int opaque
  | CallPresignedPostPolicyForUpload string int int
  | CallPresignedPostPolicyWithConditions string int string int
  | CallFolderExists string
  | CallCreateFolder string
  | CallRemoveFolder string
  | CallListFolders string
  | CallGetObjectTagging string opaque
  | CallPutObjectTagging string opaque opaque
  | CallRemoveObjectTagging string opaque
  | CallGetObjectRetention string string
  | CallPutObjectRetention string opaque
  | CallGetObjectLegalHold string opaque
  | CallPutObjectLegalHold string opaque
  | CallSelectObjectContent string opaque

fun first_entry_error :: "ObjectInfo list \<Rightarrow> error option" where
  "first_entry_error [] = None"
| "first_entry_error (objectInfo # objectCh) =
     (case Err objectInfo of Some err \<Rightarrow> Some err | None \<Rightarrow> first_entry_error objectCh)"

definition failed :: "(error + 'a) \<times> 's world \<Rightarrow> error option \<times> 's world" where
  "failed rw = (case rw of (r, w') \<Rightarrow> (err_of r, w'))"

fun run ::
  "goos \<Rightarrow> Client \<Rightarrow> 's Backend \<Rightarrow> (string \<Rightarrow> error + opaque) \<Rightarrow> int \<Rightarrow> call \<Rightarrow> 's world
     \<Rightarrow> error option \<times> 's world" where
  "run os c be parse now (CallStatObject p opts) w = failed (StatObject os c be p opts w)"
| "run os c be parse now (CallGetObject p opts) w = failed (GetObject os c be p opts w)"
| "run os c be parse now (CallPutObject p reader n opts) w =
     failed (PutObject os c be p reader n opts w)"
| "run os c be parse now (CallRemoveObject p opts) w = RemoveObject os c be p opts w"
| "run os c be parse now (CallListObjects p recursive) w =
     (case ListObjects os c be p recursive w of (ch, w') \<Rightarrow> (first_entry_error ch, w'))"
| "run os c be parse now (CallCopyObject dst src opts) w =
     failed (CopyObject os c be dst src opts w)"
| "run os c be parse now (CallGetPresignedURL p expiry) w =
     failed (GetPresignedURL os c be p expiry w)"
| "run os c be parse now (CallGetPresignedURLWithParams p expiry params) w =
     failed (GetPresignedURLWithParams os c be p expiry params w)"
| "run os c be parse now (CallGetPresignedPutURL p expiry) w =
     failed (GetPresignedPutURL os c be p expiry w)"
| "run os c be parse now (CallGetPresignedPostPolicy policy) w =
     failed (GetPresignedPostPolicy be policy w)"
| "run os c be parse now (CallGetPublicURL p) w = (err_of (GetPublicURL os c parse p), w)"
| "run os c be parse now (CallComposeObject dst srcs opts) w =
     failed (ComposeObject os c be dst srcs opts w)"
| "run os c be parse now (CallPresignedGetObject p expiry params) w =
     failed (PresignedGetObject os c be p expiry params w)"
| "run os c be parse now (CallPresignedPutObject p expiry) w =
     failed (PresignedPutObject os c be p expiry w)"
| "run os c be parse now (CallPresignedHeadObject p expiry params) w =
     failed (PresignedHeadObject os c be p expiry params w)"
| "run os c be parse now (CallPresignedPostPolicyForUpload p expiry maxSize) w =
     failed (PresignedPostPolicyForUpload os c be now p expiry maxSize w)"
| "run os c be parse now (CallPresignedPostPolicyWithConditions p expiry contentType maxSize) w =
     failed (PresignedPostPolicyWithConditions os c be now p expiry contentType maxSize w)"
| "run os c be parse now (CallFolderExists p) w =
     (case FolderExists os c be p w of ((exists, err), w') \<Rightarrow> (err, w'))"
| "run os c be parse now (CallCreateFolder p) w = CreateFolder os c be p w"
| "run os c be parse now (CallRemoveFolder p) w = RemoveFolder os c be p w"
| "run os c be parse now (CallListFolders p) w = failed (ListFolders os c be p w)"
| "run os c be parse now (CallGetObjectTagging p opts) w =
     failed (GetObjectTagging os c be p opts w)"
| "run os c be parse now (CallPutObjectTagging p objectTags opts) w =
     PutObjectTagging os c be p objectTags opts w"
| "run os c be parse now (CallRemoveObjectTagging p opts) w =
     RemoveObjectTagging os c be p opts w"
| "run os c be parse now (CallGetObjectRetention p versionID) w =
     failed (GetObjectRetention os c be p versionID w)"
| "run os c be parse now (CallPutObjectRetention p opts) w =
     PutObjectRetention os c be p opts w"
| "run os c be parse now (CallGetObjectLegalHold p opts) w =
     failed (GetObjectLegalHold os c be p opts w)"
| "run os c be parse now (CallPutObjectLegalHold p opts) w =
     PutObjectLegalHold os c be p opts w"
| "run os c be parse now (CallSelectObjectContent p opts) w =
     failed (SelectObjectContent os c be p opts w)"

text \<open>
  The paths a caller supplies to an operation, in the order the operation meets them. An
  empty listing prefix names the whole namespace and is no path to validate; a source of
  \<open>ComposeObject\<close> counts when it lies in the configured bucket; the post policy of
  \<open>GetPresignedPostPolicy\<close> carries a finished key, not a path.
\<close>

fun caller_paths :: "Client \<Rightarrow> call \<Rightarrow> string list" where
  "caller_paths c (CallStatObject p opts) = [p]"
| "caller_paths c (CallGetObject p opts) = [p]"
| "caller_paths c (CallPutObject p reader n opts) = [p]"
| "caller_paths c (CallRemoveObject p opts) = [p]"
| "caller_paths c (CallListObjects p recursive) = (if p = [] then [] else [p])"
| "caller_paths c (CallCopyObject dst src opts) = [dst, src]"
| "caller_paths c (CallGetPresignedURL p expiry) = [p]"
| "caller_paths c (CallGetPresignedURLWithParams p expiry params) = [p]"
| "caller_paths c (CallGetPresignedPutURL p expiry) = [p]"
| "caller_paths c (CallGetPresignedPostPolicy policy) = []"
| "caller_paths c (CallGetPublicURL p) = [p]"
| "caller_paths c (CallComposeObject dst srcs opts) =
     dst # map SrcObject (filter (\<lambda>src. SrcBucket src = bucketName c) srcs)"
| "caller_paths c (CallPresignedGetObject p expiry params) = [p]"
| "caller_paths c (CallPresignedPutObject p expiry) = [p]"
| "caller_paths c (CallPresignedHeadObject p expiry params) = [p]"
| "caller_paths c (CallPresignedPostPolicyForUpload p expiry maxSize) = [p]"
| "caller_paths c (CallPresignedPostPolicyWithConditions p expiry contentType maxSize) = [p]"
| "caller_paths c (CallFolderExists p) = [p]"
| "caller_paths c (CallCreateFolder p) = [p]"
| "caller_paths c (CallRemoveFolder p) = [p]"
| "caller_paths c (CallListFolders p) = (if p = [] then [] else [p])"
| "caller_paths c (CallGetObjectTagging p opts) = [p]"
| "caller_paths c (CallPutObjectTagging p objectTags opts) = [p]"
| "caller_paths c (CallRemoveObjectTagging p opts) = [p]"
| "caller_paths c (CallGetObjectRetention p versionID) = [p]"
| "caller_paths c (CallPutObjectRetention p opts) = [p]"
| "caller_paths c (CallGetObjectLegalHold p opts) = [p]"
| "caller_paths c (CallPutObjectLegalHold p opts) = [p]"
| "caller_paths c (CallSelectObjectContent p opts) = [p]"

fun is_SelectObjectContent :: "call \<Rightarrow> bool" where
  "is_SelectObjectContent (CallSelectObjectContent p opts) = True"
| "is_SelectObjectContent _ = False"

fun is_GetPublicURL :: "call \<Rightarrow> bool" where
  "is_GetPublicURL (CallGetPublicURL p) = True"
| "is_GetPublicURL _ = False"


section \<open>Stand-ins for the collaborator and notions of the specification\<close>

text \<open>
  Two concrete collaborators, used to run the operations on examples. \<open>mem_backend\<close>
  keeps objects in a map from bucket and key to content: a stat of a missing key answers
  \<open>NoSuchKey\<close>, a put stores the first \<open>size\<close> bytes of the reader (nothing for a \<open>nil\<close>
  reader). \<open>scripted_backend\<close> answers every listing and every bulk removal with the
  given channels. What a stand-in does not model answers \<open>NotImplemented\<close> or an empty
  channel.
\<close>

definition unsupported :: "'s Backend" where
  "unsupported =
     \<lparr>statObject = (\<lambda>b k opts s. (Inl (ErrorResponse ''NotImplemented'' []), s)),
      putObject = (\<lambda>b k reader n opts s. (Inl (ErrorResponse ''NotImplemented'' []), s)),
      copyObject = (\<lambda>dst src s. (Inl (ErrorResponse ''NotImplemented'' []), s)),
      composeObject = (\<lambda>dst srcs s. (Inl (ErrorResponse ''NotImplemented'' []), s)),
      listObjects = (\<lambda>b opts s. ([], s)),
      removeObjects = (\<lambda>b ch s. ([], s)),
      forward = (\<lambda>req s. (Inl (ErrorResponse ''NotImplemented'' []), s))\<rparr>"

type_synonym mem = "string \<times> string \<Rightarrow> string option"

definition mem_backend :: "mem Backend" where
  "mem_backend =
     unsupported
       \<lparr>statObject := (\<lambda>b k opts s.
          (case s (b, k) of
             None \<Rightarrow> Inl (ErrorResponse ''NoSuchKey'' ''The specified key does not exist.'')
           | Some content \<Rightarrow>
               Inr \<lparr>Key = k, Size = int (length content), ETag = [], Err = None\<rparr>, s)),
        putObject := (\<lambda>b k reader n opts s.
          (let content = (case reader of None \<Rightarrow> [] | Some bytes \<Rightarrow> take (nat n) bytes) in
           (Inr \<lparr>UploadBucket = b, UploadKey = k, UploadETag = [],
                 UploadSize = int (length content)\<rparr>,
            s((b, k) \<mapsto> content)))),
        forward := (\<lambda>req s. (Inr [], s))\<rparr>"

definition scripted_backend :: "ObjectInfo list \<Rightarrow> RemoveObjectError list \<Rightarrow> unit Backend" where
  "scripted_backend listing removal =
     unsupported
       \<lparr>listObjects := (\<lambda>b opts s. (listing, s)),
        removeObjects := (\<lambda>b ch s. (removal, s))\<rparr>"

definition entry :: "string \<Rightarrow> ObjectInfo" where
  "entry k = ObjectInfo_zero\<lparr>Key := k\<rparr>"

text \<open>
  The notions with which the specification describes \<open>ListFolders\<close>: the path of an
  entry relative to the listing root (the base prefix stripped, then the caller's
  prefix), whether that path names a folder (more than one segment, the first one not
  empty), the first segments of the entries that do, and a list with every element kept
  at its first occurrence only.
\<close>

definition listing_root_path :: "goos \<Rightarrow> Client \<Rightarrow> string \<Rightarrow> string \<Rightarrow> string" where
  "listing_root_path os c prefix k =
     (if prefix = [] then stripBasePath os c k
      else TrimPrefix (stripBasePath os c k) (Trim prefix ''/'' @ ''/''))"

definition names_folder :: "string \<Rightarrow> bool" where
  "names_folder rel =
     (length (Split rel (CHR ''/'')) > 1 \<and> hd (Split rel (CHR ''/'')) \<noteq> [])"

definition folder_names :: "goos \<Rightarrow> Client \<Rightarrow> string \<Rightarrow> ObjectInfo list \<Rightarrow> string list" where
  "folder_names os c prefix listing =
     map (\<lambda>rel. hd (Split rel (CHR ''/'')))
       (filter names_folder (map (\<lambda>info. listing_root_path os c prefix (Key info)) listing))"

fun first_seen :: "'a list \<Rightarrow> 'a list" where
  "first_seen [] = []"
| "first_seen (x # xs) = x # filter (\<lambda>y. y \<noteq> x) (first_seen xs)"

text \<open>
  The client of the repository's example: bucket \<open>b\<close>, base prefix \<open>app-data\<close>. The store
  \<open>store_without_marker\<close> holds the object \<open>images/x.png\<close> of that client and no folder
  marker; \<open>store_with_marker\<close> holds the marker of the folder \<open>images\<close>.
\<close>

definition example_client :: Client where
  "example_client =
     \<lparr>bucketName = ''b'', baseDirPrefix = ''app-data'', publicBaseURL = ''http://localhost:9000''\<rparr>"

definition store_without_marker :: mem where
  "store_without_marker = [(''b'', ''app-data/images/x.png'') \<mapsto> ''png'']"

definition store_with_marker :: mem where
  "store_with_marker = [(''b'', ''app-data/images/.empty'') \<mapsto> []]"

text \<open>
  Channels for the examples: a listing of three keys below the folder \<open>f\<close>, and a channel
  of removal results in which the second and the third entry report a failure.
\<close>

definition example_listing :: "ObjectInfo list" where
  "example_listing = [entry ''app-data/f/a'', entry ''app-data/f/b'', entry ''app-data/f/.empty'']"

definition example_removal :: "RemoveObjectError list" where
  "example_removal =
     [\<lparr>ObjectName = ''app-data/f/a'', VersionID = [], RemoveErr = None\<rparr>,
      \<lparr>ObjectName = ''app-data/f/b'', VersionID = [],
        RemoveErr = Some (ErrorResponse ''AccessDenied'' ''Access Denied.'')\<rparr>,
      \<lparr>ObjectName = ''app-data/f/.empty'', VersionID = [],
        RemoveErr = Some (OtherError ''connection reset'')\<rparr>]"

text \<open>
  Listings for \<open>ListFolders\<close>: the three objects of the specification's example, a
  listing below the folder \<open>docs\<close> of the example client, and a listing whose second entry
  carries an error.
\<close>

definition spec_listing :: "ObjectInfo list" where
  "spec_listing = [entry ''docs/a.txt'', entry ''docs/b/c.txt'', entry ''img/x.png'']"

definition docs_listing :: "ObjectInfo list" where
  "docs_listing =
     [entry ''app-data/docs/b/c.txt'', entry ''app-data/docs/a.txt'',
      entry ''app-data/docs/z/'', entry ''app-data/docs/b/d.txt'']"

definition failing_listing :: "ObjectInfo list" where
  "failing_listing =
     [entry ''app-data/docs/b/c.txt'',
      ObjectInfo_zero\<lparr>Err := Some (OtherError ''connection reset'')\<rparr>,
      entry ''app-data/docs/z/'']"

text \<open>A key ends with exactly one separator.\<close>

definition ends_with_one_slash :: "string \<Rightarrow> bool" where
  "ends_with_one_slash k = (HasSuffix k ''/'' \<and> \<not> HasSuffix k ''//'')"


section \<open>Facts about the string functions\<close>

lemma HasPrefix_append [simp]: "HasPrefix (pre @ s) pre"
  by (simp add: HasPrefix_def)

lemma HasPrefix_iff: "HasPrefix s pre \<longleftrightarrow> (\<exists>t. s = pre @ t)"
proof
  assume "HasPrefix s pre"
  then have "s = pre @ drop (length pre) s"
    by (metis HasPrefix_def append_take_drop_id)
  then show "\<exists>t. s = pre @ t" ..
next
  assume "\<exists>t. s = pre @ t"
  then show "HasPrefix s pre" by auto
qed

lemma TrimPrefix_append [simp]: "TrimPrefix (pre @ s) pre = s"
  by (simp add: TrimPrefix_def)

lemma Contains_iff: "Contains s substr \<longleftrightarrow> (\<exists>u v. s = u @ substr @ v)"
proof (induction s)
  case Nil
  then show ?case by auto
next
  case (Cons c s)
  show ?case
  proof
    assume "Contains (c # s) substr"
    then consider "HasPrefix (c # s) substr" | "Contains s substr" by auto
    then show "\<exists>u v. c # s = u @ substr @ v"
    proof cases
      case 1
      then obtain t where "c # s = substr @ t" by (auto simp: HasPrefix_iff)
      then have "c # s = [] @ substr @ t" by simp
      then show ?thesis by blast
    next
      case 2
      with Cons.IH obtain u v where "s = u @ substr @ v" by auto
      then have "c # s = (c # u) @ substr @ v" by simp
      then show ?thesis by blast
    qed
  next
    assume "\<exists>u v. c # s = u @ substr @ v"
    then obtain u v where uv: "c # s = u @ substr @ v" by auto
    show "Contains (c # s) substr"
    proof (cases u)
      case Nil
      with uv have "HasPrefix (c # s) substr" by (auto simp: HasPrefix_iff)
      then show ?thesis by simp
    next
      case (Cons d u')
      with uv have "s = u' @ substr @ v" by simp
      with Cons.IH have "Contains s substr" by auto
      then show ?thesis by simp
    qed
  qed
qed

lemma rev_dropWhile_takeWhile:
  "rev (dropWhile P xs) @ rev (takeWhile P xs) = rev xs"
proof -
  have "rev (takeWhile P xs @ dropWhile P xs) = rev xs" by simp
  then show ?thesis by (simp only: rev_append)
qed

lemma Trim_is_prefix:
  "dropWhile (\<lambda>c. c \<in> set cutset) s = Trim s cutset @ rev (takeWhile (\<lambda>c. c \<in> set cutset) (rev (dropWhile (\<lambda>c. c \<in> set cutset) s)))"
  unfolding Trim_def rev_dropWhile_takeWhile by simp

lemma Trim_slash_hd: "Trim s ''/'' \<noteq> [] \<Longrightarrow> hd (Trim s ''/'') \<noteq> CHR ''/''"
proof -
  let ?P = "\<lambda>c. c \<in> set ''/''"
  let ?d = "dropWhile ?P s"
  assume ne: "Trim s ''/'' \<noteq> []"
  have split: "?d = Trim s ''/'' @ rev (takeWhile ?P (rev ?d))"
    by (rule Trim_is_prefix)
  have dne: "?d \<noteq> []"
  proof
    assume "?d = []"
    then have "Trim s ''/'' = []" unfolding Trim_def by (simp only: rev.simps dropWhile.simps)
    with ne show False by simp
  qed
  then have hdd: "\<not> ?P (hd ?d)" by (rule hd_dropWhile)
  have "hd ?d = hd (Trim s ''/'' @ rev (takeWhile ?P (rev ?d)))"
    by (rule arg_cong [where f = hd, OF split])
  also have "\<dots> = hd (Trim s ''/'')" using ne by simp
  finally show ?thesis using hdd by simp
qed

lemma Trim_slash_last: "Trim s ''/'' \<noteq> [] \<Longrightarrow> last (Trim s ''/'') \<noteq> CHR ''/''"
proof -
  let ?P = "\<lambda>c. c \<in> set ''/''"
  let ?r = "dropWhile ?P (rev (dropWhile ?P s))"
  assume ne: "Trim s ''/'' \<noteq> []"
  then have rne: "?r \<noteq> []" by (simp add: Trim_def)
  then have "\<not> ?P (hd ?r)" by (rule hd_dropWhile)
  moreover have "last (Trim s ''/'') = hd ?r" using rne by (simp add: Trim_def last_rev)
  ultimately show ?thesis by simp
qed

lemma ToSlash_no_Separator:
  "Separator os \<noteq> CHR ''/'' \<Longrightarrow> Separator os \<notin> set (ToSlash os s)"
  by (auto simp: ToSlash_def ReplaceAll_def)

lemma set_Trim_subset: "set (Trim s cutset) \<subseteq> set s"
proof
  fix x assume "x \<in> set (Trim s cutset)"
  then have "x \<in> set (dropWhile (\<lambda>c. c \<in> set cutset) (rev (dropWhile (\<lambda>c. c \<in> set cutset) s)))"
    by (simp add: Trim_def)
  then have "x \<in> set (rev (dropWhile (\<lambda>c. c \<in> set cutset) s))" by (rule set_dropWhileD)
  then have "x \<in> set (dropWhile (\<lambda>c. c \<in> set cutset) s)" by simp
  then show "x \<in> set s" by (rule set_dropWhileD)
qed

lemma ToSlash_fixed: "Separator os \<notin> set s \<or> Separator os = CHR ''/'' \<Longrightarrow> ToSlash os s = s"
  by (auto simp: ToSlash_def ReplaceAll_def intro!: map_idI)

lemma ToSlash_clean [simp]: "ToSlash os (Trim (ToSlash os s) ''/'') = Trim (ToSlash os s) ''/''"
proof (cases "Separator os = CHR ''/''")
  case True
  then show ?thesis by (simp add: ToSlash_def)
next
  case False
  then have "Separator os \<notin> set (Trim (ToSlash os s) ''/'')"
    using ToSlash_no_Separator set_Trim_subset by blast
  then show ?thesis by (simp add: ToSlash_fixed)
qed

lemma ToSlash_append [simp]: "ToSlash os (s @ t) = ToSlash os s @ ToSlash os t"
  by (simp add: ToSlash_def ReplaceAll_def)

lemma ToSlash_slash [simp]: "ToSlash os ''/'' = ''/''"
  by (simp add: ToSlash_def ReplaceAll_def)

lemma ToSlash_Cons_slash [simp]: "ToSlash os (CHR ''/'' # s) = CHR ''/'' # ToSlash os s"
  by (simp add: ToSlash_def ReplaceAll_def)

lemma stripBasePath_buildPath: "stripBasePath os c (buildPath os c p) = Trim (ToSlash os p) ''/''"
proof (cases "baseDirPrefix c = []")
  case True
  then show ?thesis by (simp add: stripBasePath_def buildPath_def)
next
  case False
  let ?cp = "Trim (ToSlash os p) ''/''"
  let ?cx = "Trim (ToSlash os (baseDirPrefix c)) ''/''"
  show ?thesis
  proof (cases "?cp = []")
    case True
    have "\<not> HasPrefix ?cx (?cx @ ''/'')" by (simp add: HasPrefix_def)
    with True False show ?thesis
      by (simp add: stripBasePath_def buildPath_def Let_def)
  next
    case ne: False
    have ts: "ToSlash os (?cx @ ''/'' @ ?cp) = (?cx @ ''/'') @ ?cp" by simp
    have "stripBasePath os c (buildPath os c p) = stripBasePath os c (?cx @ ''/'' @ ?cp)"
      using ne False by (simp add: buildPath_def Let_def)
    also have "\<dots> = TrimPrefix ((?cx @ ''/'') @ ?cp) (?cx @ ''/'')"
      using False unfolding stripBasePath_def Let_def ts
      by (simp only: HasPrefix_append if_True if_False)
    also have "\<dots> = ?cp" by (rule TrimPrefix_append)
    finally show ?thesis .
  qed
qed

lemma Split_piece_occurs: "x \<in> set (Split s sep) \<Longrightarrow> \<exists>u v. s = u @ x @ v"
proof (induction s arbitrary: x)
  case Nil
  then show ?case by simp
next
  case (Cons c s)
  show ?case
  proof (cases "c = sep")
    case True
    with Cons.prems have "x = [] \<or> x \<in> set (Split s sep)" by auto
    then show ?thesis
    proof
      assume "x = []"
      then have "c # s = [] @ x @ (c # s)" by simp
      then show ?thesis by blast
    next
      assume "x \<in> set (Split s sep)"
      then obtain u v where "s = u @ x @ v" using Cons.IH by blast
      then have "c # s = (c # u) @ x @ v" by simp
      then show ?thesis by blast
    qed
  next
    case False
    obtain piece pieces where sp: "Split s sep = piece # pieces"
      by (cases "Split s sep") (cases s, auto split: if_splits list.splits)
    with False Cons.prems have "x = c # piece \<or> x \<in> set pieces" by auto
    then show ?thesis
    proof
      assume x: "x = c # piece"
      have "piece \<in> set (Split s sep)" using sp by simp
      then obtain u v where uv: "s = u @ piece @ v" using Cons.IH by blast
      have "Split s sep = piece # pieces \<Longrightarrow> \<exists>v. s = piece @ v"
      proof (induction s arbitrary: piece pieces)
        case Nil
        then show ?case by simp
      next
        case (Cons d t)
        then show ?case by (auto split: if_splits list.splits)
      qed
      then obtain v' where "s = piece @ v'" using sp by blast
      then have "c # s = [] @ x @ v'" using x by simp
      then show ?thesis by blast
    next
      assume "x \<in> set pieces"
      then have "x \<in> set (Split s sep)" using sp by simp
      then obtain u v where "s = u @ x @ v" using Cons.IH by blast
      then have "c # s = (c # u) @ x @ v" by simp
      then show ?thesis by blast
    qed
  qed
qed

lemma has_parent_segment_Contains: "has_parent_segment p \<Longrightarrow> Contains p ''..''"
  unfolding has_parent_segment_def Contains_iff by (rule Split_piece_occurs)

lemma Contains_ToSlash: "Contains p ''..'' \<Longrightarrow> Contains (ToSlash os p) ''..''"
proof -
  assume "Contains p ''..''"
  then obtain u v where "p = u @ ''..'' @ v" unfolding Contains_iff by blast
  then have "ToSlash os p = ToSlash os u @ ToSlash os ''..'' @ ToSlash os v"
    by (simp only: ToSlash_append)
  moreover have "ToSlash os ''..'' = ''..''"
    by (cases os) (simp_all add: ToSlash_def ReplaceAll_def Separator_def)
  ultimately show ?thesis unfolding Contains_iff by metis
qed

lemma HasPrefix_ToSlash: "HasPrefix p ''/'' \<Longrightarrow> HasPrefix (ToSlash os p) ''/''"
proof -
  assume "HasPrefix p ''/''"
  then obtain t where "p = ''/'' @ t" unfolding HasPrefix_iff by blast
  then have "ToSlash os p = ''/'' @ ToSlash os t" by (simp only: ToSlash_append ToSlash_slash)
  then show ?thesis unfolding HasPrefix_iff by blast
qed

lemma buildPath_last: "buildPath os c p \<noteq> [] \<Longrightarrow> last (buildPath os c p) \<noteq> CHR ''/''"
  by (auto simp: buildPath_def Let_def Trim_slash_last split: if_splits)

lemma buildPath_hd:
  assumes "baseDirPrefix c = [] \<or> Trim (ToSlash os (baseDirPrefix c)) ''/'' \<noteq> []"
    and "buildPath os c p \<noteq> []"
  shows "hd (buildPath os c p) \<noteq> CHR ''/''"
  using assms by (auto simp: buildPath_def Let_def Trim_slash_hd split: if_splits)

lemma buildPath_table:
  "buildPath os (c\<lparr>baseDirPrefix := []\<rparr>) [] = []"
  "buildPath os (c\<lparr>baseDirPrefix := []\<rparr>) ''a/b'' = ''a/b''"
  "buildPath os (c\<lparr>baseDirPrefix := ''base''\<rparr>) [] = ''base''"
  "buildPath os (c\<lparr>baseDirPrefix := ''base''\<rparr>) ''a/b'' = ''base/a/b''"
  by (cases os; simp add: buildPath_def ToSlash_def ReplaceAll_def Separator_def Trim_def)+


section \<open>The path namespace\<close>

text \<open>
  Claim C1. For every relative path \<open>p\<close> that has no \<open>..\<close> segment and is not absolute,
  and for every configured base prefix, stripping the base prefix from the key built
  from \<open>p\<close> gives \<open>normalize p\<close>: the separators turned into forward slashes and the
  leading and trailing slashes trimmed.
\<close>

theorem strip_build_roundtrip:
  assumes "\<not> has_parent_segment (ToSlash os p)" and "\<not> HasPrefix (ToSlash os p) ''/''"
  shows "stripBasePath os c (buildPath os c p) = normalize os p"
  by (simp add: stripBasePath_buildPath normalize_def)


text \<open>The round trip on the path \<open>documents/hello.txt/\<close> below the prefix \<open>app-data\<close>.\<close>

theorem strip_build_roundtrip_witness:
  "\<not> has_parent_segment (ToSlash Unix ''documents/hello.txt/'')
   \<and> \<not> HasPrefix (ToSlash Unix ''documents/hello.txt/'') ''/''
   \<and> stripBasePath Unix \<lparr>bucketName = ''b'', baseDirPrefix = ''app-data'', publicBaseURL = []\<rparr>
        (buildPath Unix \<lparr>bucketName = ''b'', baseDirPrefix = ''app-data'', publicBaseURL = []\<rparr>
           ''documents/hello.txt/'') = ''documents/hello.txt''"
proof -
  have h1: "\<not> has_parent_segment (ToSlash Unix ''documents/hello.txt/'')"
    by (simp add: has_parent_segment_def ToSlash_def Separator_def)
  have h2: "\<not> HasPrefix (ToSlash Unix ''documents/hello.txt/'') ''/''"
    by (simp add: HasPrefix_def ToSlash_def Separator_def)
  have n: "normalize Unix ''documents/hello.txt/'' = ''documents/hello.txt''"
    by (simp add: normalize_def Trim_def ToSlash_def Separator_def)
  show ?thesis
    using h1 h2 n strip_build_roundtrip [OF h1 h2] by simp
qed

text \<open>
  Claim C3, at the base prefix \<open>/\<close> and the path \<open>a\<close>: the prefix is not the empty string,
  so \<open>buildPath\<close> takes the branch that joins the cleaned prefix, a slash and the cleaned
  path, and the cleaned prefix is empty. The key it builds, \<open>/a\<close>, begins with a separator.
\<close>

theorem buildPath_leading_separator:
  "buildPath Unix \<lparr>bucketName = ''b'', baseDirPrefix = ''/'', publicBaseURL = []\<rparr> ''a'' = ''/a''"
  by (simp add: buildPath_def ToSlash_def Separator_def Trim_def)




text \<open>
  Claim C10. \<open>ValidatePath\<close> gives the traversal error exactly when the
  slash-canonicalised path contains the two characters \<open>..\<close> anywhere. So \<open>a..b\<close> and
  \<open>notes..txt\<close>, which have no \<open>..\<close> segment, are rejected, and a path that begins with a
  slash and contains \<open>..\<close> gets the traversal error and not the absolute-path error.
\<close>

theorem ValidatePath_traversal_iff:
  "((\<exists>q. ValidatePath os p = Some (TraversalError q)) \<longleftrightarrow> Contains (ToSlash os p) ''..'')
   \<and> (Contains (ToSlash os p) ''..'' \<longrightarrow> ValidatePath os p = Some (TraversalError p))
   \<and> \<not> has_parent_segment ''a..b''
   \<and> ValidatePath os ''a..b'' = Some (TraversalError ''a..b'')
   \<and> \<not> has_parent_segment ''notes..txt''
   \<and> ValidatePath os ''notes..txt'' = Some (TraversalError ''notes..txt'')
   \<and> (HasPrefix p ''/'' \<and> Contains (ToSlash os p) ''..''
        \<longrightarrow> ValidatePath os p = Some (TraversalError p)
            \<and> ValidatePath os p \<noteq> Some (AbsolutePathError p))"
proof -
  have 1: "(\<exists>q. ValidatePath os p = Some (TraversalError q)) \<longleftrightarrow> Contains (ToSlash os p) ''..''"
    by (auto simp: ValidatePath_def Let_def)
  have 2: "Contains (ToSlash os p) ''..'' \<longrightarrow> ValidatePath os p = Some (TraversalError p)"
    by (simp add: ValidatePath_def Let_def)
  have 3: "\<not> has_parent_segment ''a..b''" "\<not> has_parent_segment ''notes..txt''"
    by (simp_all add: has_parent_segment_def)
  have 4: "ValidatePath os ''a..b'' = Some (TraversalError ''a..b'')"
    by (cases os) (simp_all add: ValidatePath_def ToSlash_def ReplaceAll_def Separator_def HasPrefix_def)
  have 5: "ValidatePath os ''notes..txt'' = Some (TraversalError ''notes..txt'')"
    by (cases os) (simp_all add: ValidatePath_def ToSlash_def ReplaceAll_def Separator_def HasPrefix_def)
  from 1 2 3 4 5 show ?thesis by simp
qed

text \<open>The last part on \<open>/a/../b\<close>.\<close>

theorem ValidatePath_traversal_iff_witness:
  "HasPrefix ''/a/../b'' ''/'' \<and> Contains (ToSlash Unix ''/a/../b'') ''..''
   \<and> ValidatePath Unix ''/a/../b'' = Some (TraversalError ''/a/../b'')
   \<and> ValidatePath Unix ''/a/../b'' \<noteq> Some (AbsolutePathError ''/a/../b'')"
proof -
  have h1: "HasPrefix ''/a/../b'' ''/''" by (simp add: HasPrefix_def)
  have h2: "Contains (ToSlash Unix ''/a/../b'') ''..''"
    by (simp add: HasPrefix_def ToSlash_def Separator_def)
  show ?thesis
    using h1 h2 ValidatePath_traversal_iff [of Unix "''/a/../b''"] by blast
qed


section \<open>Folder emulation: claims\<close>

lemma HasSuffix_slash: "HasSuffix s ''/'' \<longleftrightarrow> s \<noteq> [] \<and> last s = CHR ''/''"
proof (cases s rule: rev_cases)
  case Nil
  then show ?thesis by (simp add: HasSuffix_def)
next
  case (snoc ys y)
  then show ?thesis by (auto simp: HasSuffix_def)
qed

lemma buildPath_no_trailing_slash: "\<not> HasSuffix (buildPath os c p) ''/''"
  using buildPath_last [of os c p] by (auto simp: HasSuffix_slash)

lemma ends_with_one_slash_buildPath: "ends_with_one_slash (buildPath os c p @ ''/'')"
proof -
  have 1: "HasSuffix (buildPath os c p @ ''/'') ''/''" by (simp add: HasSuffix_def)
  have 2: "\<not> HasSuffix (buildPath os c p @ ''/'') ''//''"
  proof (cases "buildPath os c p" rule: rev_cases)
    case Nil
    then show ?thesis by (simp add: HasSuffix_def)
  next
    case (snoc ys y)
    then have "y \<noteq> CHR ''/''" using buildPath_last [of os c p] by simp
    with snoc show ?thesis by (simp add: HasSuffix_def)
  qed
  from 1 2 show ?thesis by (simp add: ends_with_one_slash_def)
qed

lemma FolderExists_valid:
  assumes "ValidatePath os p = None"
    and "statObject be (bucketName c) (buildPath os c p @ ''/.empty'') no_opts (fst w) = (r, s')"
  shows "FolderExists os c be p w =
     ((case r of
         Inr info \<Rightarrow> (True, None)
       | Inl err \<Rightarrow> if ToErrorResponse_Code err = ''NoSuchKey'' then (False, None)
                    else (False, Some err)),
      (s', snd w @ [ReqStatObject (bucketName c) (buildPath os c p @ ''/.empty'') no_opts]))"
  using assms by (simp add: FolderExists_def issue_def Let_def split: sum.splits)

lemma RemoveFolder_loop_None:
  "RemoveFolder_loop removal = None \<longleftrightarrow> (\<forall>r \<in> set removal. RemoveErr r = None)"
  by (induction removal) auto

lemma RemoveFolder_loop_first:
  "(\<forall>r \<in> set ok. RemoveErr r = None) \<Longrightarrow> RemoveErr bad \<noteq> None
     \<Longrightarrow> RemoveFolder_loop (ok @ bad # rest) = RemoveErr bad"
  by (induction ok) auto

text \<open>
  Claim C4. For a valid path, \<open>FolderExists\<close> is decided by the stat of the marker object at
  the built key followed by \<open>/.empty\<close>, the only request it issues: a successful stat gives
  \<open>(true, nil)\<close>, a \<open>NoSuchKey\<close> response gives \<open>(false, nil)\<close>, any other error is handed to
  the caller. On a store that has no marker object the answer is \<open>false\<close>, whatever other
  objects the store holds.
\<close>

theorem FolderExists_marker_only:
  assumes "ValidatePath os p = None"
  shows "(\<forall>info s'. statObject be (bucketName c) (buildPath os c p @ ''/.empty'') no_opts (fst w)
              = (Inr info, s')
            \<longrightarrow> fst (FolderExists os c be p w) = (True, None))
       \<and> (\<forall>err s'. statObject be (bucketName c) (buildPath os c p @ ''/.empty'') no_opts (fst w)
              = (Inl err, s') \<and> ToErrorResponse_Code err = ''NoSuchKey''
            \<longrightarrow> fst (FolderExists os c be p w) = (False, None))
       \<and> (\<forall>err s'. statObject be (bucketName c) (buildPath os c p @ ''/.empty'') no_opts (fst w)
              = (Inl err, s') \<and> ToErrorResponse_Code err \<noteq> ''NoSuchKey''
            \<longrightarrow> fst (FolderExists os c be p w) = (False, Some err))
       \<and> snd (snd (FolderExists os c be p w))
            = snd w @ [ReqStatObject (bucketName c) (buildPath os c p @ ''/.empty'') no_opts]
       \<and> (\<forall>store tr. store (bucketName c, buildPath os c p @ ''/.empty'') = None
            \<longrightarrow> fst (FolderExists os c mem_backend p (store, tr)) = (False, None))"
proof -
  obtain r s' where st:
    "statObject be (bucketName c) (buildPath os c p @ ''/.empty'') no_opts (fst w) = (r, s')"
    by (cases "statObject be (bucketName c) (buildPath os c p @ ''/.empty'') no_opts (fst w)")
  note fe = FolderExists_valid [OF assms st]
  have mem: "fst (FolderExists os c mem_backend p (store, tr)) = (False, None)"
    if "store (bucketName c, buildPath os c p @ ''/.empty'') = None" for store tr
  proof -
    have "statObject mem_backend (bucketName c) (buildPath os c p @ ''/.empty'') no_opts
            (fst (store, tr))
          = (Inl (ErrorResponse ''NoSuchKey'' ''The specified key does not exist.''), store)"
      using that by (simp add: mem_backend_def unsupported_def)
    from FolderExists_valid [OF assms this] show ?thesis by simp
  qed
  show ?thesis using fe st mem by simp
qed

lemma example_key: "buildPath Unix example_client ''images'' = ''app-data/images''"
  by (simp add: buildPath_def example_client_def ToSlash_def Separator_def Trim_def)

lemma example_valid: "ValidatePath Unix ''images'' = None"
  by (simp add: ValidatePath_def ToSlash_def Separator_def HasPrefix_def)

text \<open>
  The folder \<open>images\<close> on a store that holds \<open>images/x.png\<close> and no marker, and on a store
  that holds the marker.
\<close>

theorem FolderExists_marker_only_witness:
  "ValidatePath Unix ''images'' = None
   \<and> store_without_marker (''b'', ''app-data/images/x.png'') = Some ''png''
   \<and> fst (FolderExists Unix example_client mem_backend ''images'' (store_without_marker, []))
       = (False, None)
   \<and> fst (FolderExists Unix example_client mem_backend ''images'' (store_with_marker, []))
       = (True, None)"
proof -
  note t1 = FolderExists_marker_only [OF example_valid, of mem_backend example_client
      "(store_without_marker, [])"]
  note t2 = FolderExists_marker_only [OF example_valid, of mem_backend example_client
      "(store_with_marker, [])"]
  have a: "store_without_marker (bucketName example_client,
             buildPath Unix example_client ''images'' @ ''/.empty'') = None"
    unfolding example_key by (simp add: store_without_marker_def example_client_def)
  have b: "statObject mem_backend (bucketName example_client)
             (buildPath Unix example_client ''images'' @ ''/.empty'') no_opts
             (fst (store_with_marker, []))
           = (Inr \<lparr>Key = ''app-data/images/.empty'', Size = 0, ETag = [], Err = None\<rparr>,
              store_with_marker)"
    unfolding example_key
    by (simp add: store_with_marker_def example_client_def mem_backend_def unsupported_def)
  have c: "store_without_marker (''b'', ''app-data/images/x.png'') = Some ''png''"
    by (simp add: store_without_marker_def)
  from t1 a have 1: "fst (FolderExists Unix example_client mem_backend ''images''
      (store_without_marker, [])) = (False, None)" by blast
  from t2 b have 2: "fst (FolderExists Unix example_client mem_backend ''images''
      (store_with_marker, [])) = (True, None)" by blast
  from example_valid c 1 2 show ?thesis by simp
qed

text \<open>
  Claim C5. \<open>RemoveFolder\<close> hands back the validation error of an invalid path. For a valid
  path it lists recursively below the built key followed by one slash (a key that ends with
  exactly one separator), submits the listing to the bulk removal, and returns what its loop
  finds in the removal results: the error of the first entry that reports one, whatever
  comes after it, and success only when no entry reports an error.
\<close>

theorem RemoveFolder_first_failure:
  "(\<forall>err. ValidatePath os p = Some err \<longrightarrow> RemoveFolder os c be p w = (Some err, w))
   \<and> (\<forall>listing s1 removal s2.
        ValidatePath os p = None
        \<and> listObjects be (bucketName c) \<lparr>Prefix = buildPath os c p @ ''/'', Recursive = True\<rparr> (fst w)
            = (listing, s1)
        \<and> removeObjects be (bucketName c) listing s1 = (removal, s2)
        \<longrightarrow> RemoveFolder os c be p w =
              (RemoveFolder_loop removal,
               (s2, snd w @ [ReqListObjects (bucketName c)
                               \<lparr>Prefix = buildPath os c p @ ''/'', Recursive = True\<rparr>,
                             ReqRemoveObjects (bucketName c) listing])))
   \<and> ends_with_one_slash (buildPath os c p @ ''/'')
   \<and> (\<forall>removal. RemoveFolder_loop removal = None \<longleftrightarrow> (\<forall>r \<in> set removal. RemoveErr r = None))
   \<and> (\<forall>ok bad rest. (\<forall>r \<in> set ok. RemoveErr r = None) \<and> RemoveErr bad \<noteq> None
        \<longrightarrow> RemoveFolder_loop (ok @ bad # rest) = RemoveErr bad)"
proof -
  have 1: "\<forall>err. ValidatePath os p = Some err \<longrightarrow> RemoveFolder os c be p w = (Some err, w)"
    by (simp add: RemoveFolder_def)
  have 2: "RemoveFolder os c be p w =
              (RemoveFolder_loop removal,
               (s2, snd w @ [ReqListObjects (bucketName c)
                               \<lparr>Prefix = buildPath os c p @ ''/'', Recursive = True\<rparr>,
                             ReqRemoveObjects (bucketName c) listing]))"
    if "ValidatePath os p = None"
      and "listObjects be (bucketName c) \<lparr>Prefix = buildPath os c p @ ''/'', Recursive = True\<rparr> (fst w)
            = (listing, s1)"
      and "removeObjects be (bucketName c) listing s1 = (removal, s2)"
    for listing s1 removal s2
    using that by (simp add: RemoveFolder_def Let_def issue_def buildPath_no_trailing_slash)
  show ?thesis
    using 1 2 ends_with_one_slash_buildPath RemoveFolder_loop_None RemoveFolder_loop_first
    by blast
qed

text \<open>
  Removing the folder \<open>f\<close> when the second and the third removal result report a failure:
  the error of the second one is returned.
\<close>

theorem RemoveFolder_first_failure_witness:
  "ValidatePath Unix ''f'' = None
   \<and> RemoveFolder Unix example_client (scripted_backend example_listing example_removal) ''f'' ((), [])
       = (Some (ErrorResponse ''AccessDenied'' ''Access Denied.''),
          ((), [ReqListObjects ''b'' \<lparr>Prefix = ''app-data/f/'', Recursive = True\<rparr>,
                ReqRemoveObjects ''b'' example_listing]))"
proof -
  have v: "ValidatePath Unix ''f'' = None"
    by (simp add: ValidatePath_def ToSlash_def Separator_def HasPrefix_def)
  have k: "buildPath Unix example_client ''f'' = ''app-data/f''"
    by (simp add: buildPath_def example_client_def ToSlash_def Separator_def Trim_def)
  have b: "bucketName example_client = ''b''" by (simp add: example_client_def)
  have l: "listObjects (scripted_backend example_listing example_removal) (bucketName example_client)
             \<lparr>Prefix = buildPath Unix example_client ''f'' @ ''/'', Recursive = True\<rparr>
             (fst ((), [])) = (example_listing, ())"
    by (simp add: scripted_backend_def unsupported_def)
  have r: "removeObjects (scripted_backend example_listing example_removal)
             (bucketName example_client) example_listing () = (example_removal, ())"
    by (simp add: scripted_backend_def unsupported_def)
  have e: "example_removal =
      [\<lparr>ObjectName = ''app-data/f/a'', VersionID = [], RemoveErr = None\<rparr>]
      @ \<lparr>ObjectName = ''app-data/f/b'', VersionID = [],
          RemoveErr = Some (ErrorResponse ''AccessDenied'' ''Access Denied.'')\<rparr>
      # [\<lparr>ObjectName = ''app-data/f/.empty'', VersionID = [],
          RemoveErr = Some (OtherError ''connection reset'')\<rparr>]"
    by (simp add: example_removal_def)
  note t = RemoveFolder_first_failure [of Unix "''f''" example_client
      "scripted_backend example_listing example_removal" "((), [])"]
  from t v l r have 1: "RemoveFolder Unix example_client
      (scripted_backend example_listing example_removal) ''f'' ((), [])
      = (RemoveFolder_loop example_removal,
         ((), snd ((), []) @ [ReqListObjects (bucketName example_client)
                 \<lparr>Prefix = buildPath Unix example_client ''f'' @ ''/'', Recursive = True\<rparr>,
               ReqRemoveObjects (bucketName example_client) example_listing]))"
    by blast
  from t have "(\<forall>r \<in> set [\<lparr>ObjectName = ''app-data/f/a'', VersionID = [], RemoveErr = None\<rparr>].
                   RemoveErr r = None)
      \<and> RemoveErr \<lparr>ObjectName = ''app-data/f/b'', VersionID = [],
          RemoveErr = Some (ErrorResponse ''AccessDenied'' ''Access Denied.'')\<rparr> \<noteq> None
      \<longrightarrow> RemoveFolder_loop example_removal
          = RemoveErr \<lparr>ObjectName = ''app-data/f/b'', VersionID = [],
              RemoveErr = Some (ErrorResponse ''AccessDenied'' ''Access Denied.'')\<rparr>"
    unfolding e by blast
  then have 2: "RemoveFolder_loop example_removal
      = Some (ErrorResponse ''AccessDenied'' ''Access Denied.'')" by simp
  show ?thesis using v 1 2 unfolding k b by simp
qed

lemma mem_FolderExists:
  assumes "ValidatePath os p = None"
  shows "FolderExists os c mem_backend p (store, tr) =
     ((store (bucketName c, buildPath os c p @ ''/.empty'') \<noteq> None, None),
      (store, tr @ [ReqStatObject (bucketName c) (buildPath os c p @ ''/.empty'') no_opts]))"
proof -
  have "statObject mem_backend (bucketName c) (buildPath os c p @ ''/.empty'') no_opts
          (fst (store, tr))
        = ((case store (bucketName c, buildPath os c p @ ''/.empty'') of
              None \<Rightarrow> Inl (ErrorResponse ''NoSuchKey'' ''The specified key does not exist.'')
            | Some content \<Rightarrow>
                Inr \<lparr>Key = buildPath os c p @ ''/.empty'', Size = int (length content),
                     ETag = [], Err = None\<rparr>), store)"
    by (simp add: mem_backend_def unsupported_def)
  from FolderExists_valid [OF assms this] show ?thesis
    by (simp split: option.splits)
qed

lemma mem_CreateFolder:
  assumes "ValidatePath os p = None"
  shows "CreateFolder os c mem_backend p (store, tr) =
     (None,
      (if store (bucketName c, buildPath os c p @ ''/.empty'') = None
       then (store((bucketName c, buildPath os c p @ ''/.empty'') \<mapsto> []),
             tr @ [ReqStatObject (bucketName c) (buildPath os c p @ ''/.empty'') no_opts,
                   ReqPutObject (bucketName c) (buildPath os c p @ ''/.empty'') None 0 no_opts])
       else (store,
             tr @ [ReqStatObject (bucketName c) (buildPath os c p @ ''/.empty'') no_opts])))"
proof -
  have put: "putObject mem_backend b k None 0 no_opts store
      = (Inr \<lparr>UploadBucket = b, UploadKey = k, UploadETag = [], UploadSize = 0\<rparr>,
         store((b, k) \<mapsto> []))" for b k
    by (simp add: mem_backend_def unsupported_def)
  show ?thesis
    using assms
    by (simp add: CreateFolder_def mem_FolderExists put Let_def issue_def err_of_def)
qed

text \<open>
  Claim C6. For a valid path, \<open>CreateFolder\<close> first runs \<open>FolderExists\<close>. If the folder
  exists it returns success in the world the check left, whose only new request is the stat;
  if the check failed it returns that error in the same way; only when the check says
  \<open>false\<close> does it put an object of size zero with no reader at the marker key. On the
  in-memory store, two calls in sequence both succeed, the second leaves the store as the
  first left it and issues only the stat, and a marker created by the first call is empty.
\<close>

theorem CreateFolder_idempotent:
  assumes "ValidatePath os p = None"
  shows "(\<forall>w1. FolderExists os c be p w = ((True, None), w1)
            \<longrightarrow> CreateFolder os c be p w = (None, w1)
                \<and> snd w1 = snd w @ [ReqStatObject (bucketName c)
                                       (buildPath os c p @ ''/.empty'') no_opts])
       \<and> (\<forall>err w1. FolderExists os c be p w = ((False, Some err), w1)
            \<longrightarrow> CreateFolder os c be p w = (Some err, w1)
                \<and> snd w1 = snd w @ [ReqStatObject (bucketName c)
                                       (buildPath os c p @ ''/.empty'') no_opts])
       \<and> (\<forall>w1 r s2. FolderExists os c be p w = ((False, None), w1)
              \<and> putObject be (bucketName c) (buildPath os c p @ ''/.empty'') None 0 no_opts (fst w1)
                  = (r, s2)
            \<longrightarrow> CreateFolder os c be p w =
                  (err_of r,
                   (s2, snd w1 @ [ReqPutObject (bucketName c)
                                    (buildPath os c p @ ''/.empty'') None 0 no_opts])))
       \<and> (\<forall>store tr first second.
              first = CreateFolder os c mem_backend p (store, tr)
              \<and> second = CreateFolder os c mem_backend p (snd first)
            \<longrightarrow> fst first = None \<and> fst second = None
                \<and> fst (snd second) = fst (snd first)
                \<and> snd (snd second)
                    = snd (snd first) @ [ReqStatObject (bucketName c)
                                           (buildPath os c p @ ''/.empty'') no_opts]
                \<and> (store (bucketName c, buildPath os c p @ ''/.empty'') = None
                     \<longrightarrow> fst (snd first) (bucketName c, buildPath os c p @ ''/.empty'')
                          = Some []))"
proof -
  obtain r s' where st:
    "statObject be (bucketName c) (buildPath os c p @ ''/.empty'') no_opts (fst w) = (r, s')"
    by (cases "statObject be (bucketName c) (buildPath os c p @ ''/.empty'') no_opts (fst w)")
  note fe = FolderExists_valid [OF assms st]
  have 1: "\<forall>w1. FolderExists os c be p w = ((True, None), w1)
            \<longrightarrow> CreateFolder os c be p w = (None, w1)
                \<and> snd w1 = snd w @ [ReqStatObject (bucketName c)
                                       (buildPath os c p @ ''/.empty'') no_opts]"
    using assms fe by (auto simp: CreateFolder_def)
  have 2: "\<forall>err w1. FolderExists os c be p w = ((False, Some err), w1)
            \<longrightarrow> CreateFolder os c be p w = (Some err, w1)
                \<and> snd w1 = snd w @ [ReqStatObject (bucketName c)
                                       (buildPath os c p @ ''/.empty'') no_opts]"
    using assms fe by (auto simp: CreateFolder_def)
  have 3: "\<forall>w1 r s2. FolderExists os c be p w = ((False, None), w1)
              \<and> putObject be (bucketName c) (buildPath os c p @ ''/.empty'') None 0 no_opts (fst w1)
                  = (r, s2)
            \<longrightarrow> CreateFolder os c be p w =
                  (err_of r,
                   (s2, snd w1 @ [ReqPutObject (bucketName c)
                                    (buildPath os c p @ ''/.empty'') None 0 no_opts]))"
    using assms by (auto simp: CreateFolder_def Let_def issue_def)
  have 4: "\<forall>store tr first second.
              first = CreateFolder os c mem_backend p (store, tr)
              \<and> second = CreateFolder os c mem_backend p (snd first)
            \<longrightarrow> fst first = None \<and> fst second = None
                \<and> fst (snd second) = fst (snd first)
                \<and> snd (snd second)
                    = snd (snd first) @ [ReqStatObject (bucketName c)
                                           (buildPath os c p @ ''/.empty'') no_opts]
                \<and> (store (bucketName c, buildPath os c p @ ''/.empty'') = None
                     \<longrightarrow> fst (snd first) (bucketName c, buildPath os c p @ ''/.empty'')
                          = Some [])"
    by (simp add: mem_CreateFolder [OF assms])
  from 1 2 3 4 show ?thesis by blast
qed

text \<open>Creating the folder \<open>images\<close> twice on a store that has no marker yet.\<close>

theorem CreateFolder_idempotent_witness:
  "ValidatePath Unix ''images'' = None
   \<and> store_without_marker (''b'', ''app-data/images/.empty'') = None
   \<and> fst (CreateFolder Unix example_client mem_backend ''images'' (store_without_marker, [])) = None
   \<and> fst (CreateFolder Unix example_client mem_backend ''images''
         (snd (CreateFolder Unix example_client mem_backend ''images'' (store_without_marker, []))))
       = None
   \<and> fst (snd (CreateFolder Unix example_client mem_backend ''images''
         (snd (CreateFolder Unix example_client mem_backend ''images'' (store_without_marker, [])))))
       = fst (snd (CreateFolder Unix example_client mem_backend ''images'' (store_without_marker, [])))
   \<and> fst (snd (CreateFolder Unix example_client mem_backend ''images'' (store_without_marker, [])))
         (''b'', ''app-data/images/.empty'') = Some []"
proof -
  have a: "store_without_marker (''b'', ''app-data/images/.empty'') = None"
    by (simp add: store_without_marker_def)
  have b: "bucketName example_client = ''b''" by (simp add: example_client_def)
  note t = CreateFolder_idempotent [OF example_valid, of example_client mem_backend
      "(store_without_marker, [])"]
  then have "\<forall>store tr first second.
      first = CreateFolder Unix example_client mem_backend ''images'' (store, tr)
      \<and> second = CreateFolder Unix example_client mem_backend ''images'' (snd first)
      \<longrightarrow> fst first = None \<and> fst second = None
          \<and> fst (snd second) = fst (snd first)
          \<and> (store (''b'', ''app-data/images/.empty'') = None
               \<longrightarrow> fst (snd first) (''b'', ''app-data/images/.empty'') = Some [])"
    unfolding example_key b by simp
  with a example_valid show ?thesis by blast
qed

section \<open>Object operations: claims\<close>

text \<open>
  Claim C9. \<open>CopyObject\<close> does not depend on the destination options of its caller: any
  two values give the same result and the same world. For valid paths the one request it
  issues carries destination options that hold the configured bucket and the built
  destination key, every other field at its zero value.
\<close>

theorem CopyObject_discards_opts:
  "CopyObject os c be dst src opts w = CopyObject os c be dst src opts' w
   \<and> (ValidatePath os dst = None \<and> ValidatePath os src = None
        \<longrightarrow> snd (snd (CopyObject os c be dst src opts w))
            = snd w @ [ReqCopyObject
                         (CopyDestOptions_zero\<lparr>Bucket := bucketName c, Object := buildPath os c dst\<rparr>)
                         (CopySrcOptions_zero\<lparr>SrcBucket := bucketName c,
                            SrcObject := buildPath os c src\<rparr>)])"
proof -
  have 1: "CopyObject os c be dst src opts w = CopyObject os c be dst src opts' w"
    by (simp add: CopyObject_def)
  have 2: "snd (snd (CopyObject os c be dst src opts w))
            = snd w @ [ReqCopyObject
                         (CopyDestOptions_zero\<lparr>Bucket := bucketName c, Object := buildPath os c dst\<rparr>)
                         (CopySrcOptions_zero\<lparr>SrcBucket := bucketName c,
                            SrcObject := buildPath os c src\<rparr>)]"
    if "ValidatePath os dst = None" and "ValidatePath os src = None"
    using that
    by (simp add: CopyObject_def Let_def issue_def split: prod.splits sum.splits)
  from 1 2 show ?thesis by blast
qed

text \<open>A copy whose caller asks for replaced metadata and tags: the request carries none.\<close>

theorem CopyObject_discards_opts_witness:
  "ValidatePath Unix ''a.txt'' = None \<and> ValidatePath Unix ''b.txt'' = None
   \<and> snd (snd (CopyObject Unix example_client mem_backend ''a.txt'' ''b.txt''
        (CopyDestOptions_zero\<lparr>UserMetadata := [(''owner'', ''me'')], ReplaceMetadata := True,
           UserTags := [(''tier'', ''cold'')], ReplaceTags := True\<rparr>) (Map.empty, [])))
       = [ReqCopyObject
            \<lparr>Bucket = ''b'', Object = ''app-data/a.txt'', Encryption = [], UserMetadata = [],
             ReplaceMetadata = False, UserTags = [], ReplaceTags = False, LegalHold = [],
             Mode = []\<rparr>
            \<lparr>SrcBucket = ''b'', SrcObject = ''app-data/b.txt'', SrcVersionID = []\<rparr>]"
proof -
  have v1: "ValidatePath Unix ''a.txt'' = None"
    by (simp add: ValidatePath_def ToSlash_def Separator_def HasPrefix_def)
  have v2: "ValidatePath Unix ''b.txt'' = None"
    by (simp add: ValidatePath_def ToSlash_def Separator_def HasPrefix_def)
  have k1: "buildPath Unix example_client ''a.txt'' = ''app-data/a.txt''"
    by (simp add: buildPath_def example_client_def ToSlash_def Separator_def Trim_def)
  have k2: "buildPath Unix example_client ''b.txt'' = ''app-data/b.txt''"
    by (simp add: buildPath_def example_client_def ToSlash_def Separator_def Trim_def)
  have b: "bucketName example_client = ''b''" by (simp add: example_client_def)
  note t = CopyObject_discards_opts [of Unix example_client mem_backend "''a.txt''" "''b.txt''"
      "(CopyDestOptions_zero\<lparr>UserMetadata := [(''owner'', ''me'')], ReplaceMetadata := True,
           UserTags := [(''tier'', ''cold'')], ReplaceTags := True\<rparr>)" "(Map.empty, [])"]
  from t v1 v2 show ?thesis
    unfolding k1 k2 b by (simp add: CopyDestOptions_zero_def CopySrcOptions_zero_def)
qed


section \<open>Listing folders: claims\<close>

lemma first_seen_set [simp]: "set (first_seen xs) = set xs"
  by (induction xs) auto

lemma first_seen_distinct [simp]: "distinct (first_seen xs)"
  by (induction xs) auto

lemma folder_names_Cons:
  "folder_names os c prefix (info # listing) =
     (if names_folder (listing_root_path os c prefix (Key info))
      then hd (Split (listing_root_path os c prefix (Key info)) (CHR ''/'')) # folder_names os c prefix listing
      else folder_names os c prefix listing)"
  by (simp add: folder_names_def)

lemma folder_names_Nil [simp]: "folder_names os c prefix [] = []"
  by (simp add: folder_names_def)

lemma ListFolders_loop_step:
  assumes "Err info = None"
  shows "ListFolders_loop os c prefix (info # listing) folders seen =
     (if names_folder (listing_root_path os c prefix (Key info))
         \<and> \<not> seen (hd (Split (listing_root_path os c prefix (Key info)) (CHR ''/'')))
      then ListFolders_loop os c prefix listing
             (folders @ [hd (Split (listing_root_path os c prefix (Key info)) (CHR ''/''))])
             (seen(hd (Split (listing_root_path os c prefix (Key info)) (CHR ''/'')) := True))
      else ListFolders_loop os c prefix listing folders seen)"
proof -
  have hd0: "length xs > 1 \<Longrightarrow> xs ! 0 = hd xs" for xs :: "string list"
    by (cases xs) auto
  show ?thesis
    using assms
    by (auto simp: Let_def names_folder_def listing_root_path_def hd0)
qed

lemma ListFolders_loop_ok:
  assumes "\<forall>info \<in> set listing. Err info = None" and "\<forall>x. seen x = (x \<in> set folders)"
  shows "ListFolders_loop os c prefix listing folders seen =
     Inr (folders @ filter (\<lambda>x. x \<notin> set folders) (first_seen (folder_names os c prefix listing)))"
  using assms
proof (induction listing arbitrary: folders seen)
  case Nil
  then show ?case by simp
next
  case (Cons info listing)
  let ?n = "hd (Split (listing_root_path os c prefix (Key info)) (CHR ''/''))"
  have e: "Err info = None" and rest: "\<forall>info \<in> set listing. Err info = None"
    using Cons.prems(1) by auto
  let ?names = "folder_names os c prefix listing"
  show ?case
  proof (cases "names_folder (listing_root_path os c prefix (Key info)) \<and> \<not> seen ?n")
    case True
    then have nmem: "?n \<notin> set folders" using Cons.prems(2) by simp
    have seen': "\<forall>x. (seen(?n := True)) x = (x \<in> set (folders @ [?n]))"
      using Cons.prems(2) by auto
    have filt: "filter (\<lambda>x. x \<notin> set (folders @ [?n])) ys
          = filter (\<lambda>x. x \<notin> set folders) (filter (\<lambda>y. y \<noteq> ?n) ys)" for ys
      by (induction ys) auto
    have "ListFolders_loop os c prefix (info # listing) folders seen
          = ListFolders_loop os c prefix listing (folders @ [?n]) (seen(?n := True))"
      by (subst ListFolders_loop_step [OF e]) (rule if_P [OF True])
    also have "\<dots> = Inr ((folders @ [?n])
          @ filter (\<lambda>x. x \<notin> set (folders @ [?n])) (first_seen ?names))"
      by (rule Cons.IH [OF rest seen'])
    also have "\<dots> = Inr (folders @ filter (\<lambda>x. x \<notin> set folders)
          (first_seen (folder_names os c prefix (info # listing))))"
      using True nmem by (simp add: folder_names_Cons filt)
    finally show ?thesis .
  next
    case False
    have "ListFolders_loop os c prefix (info # listing) folders seen
          = ListFolders_loop os c prefix listing folders seen"
      by (subst ListFolders_loop_step [OF e]) (rule if_not_P [OF False])
    also have "\<dots> = Inr (folders @ filter (\<lambda>x. x \<notin> set folders) (first_seen ?names))"
      by (rule Cons.IH [OF rest Cons.prems(2)])
    also have "\<dots> = Inr (folders @ filter (\<lambda>x. x \<notin> set folders)
          (first_seen (folder_names os c prefix (info # listing))))"
    proof (cases "names_folder (listing_root_path os c prefix (Key info))")
      case nf: False
      then show ?thesis by (simp add: folder_names_Cons)
    next
      case nf: True
      with False have "seen ?n" by simp
      then have mem: "?n \<in> set folders" using Cons.prems(2) by simp
      have "filter (\<lambda>x. x \<notin> set folders) (filter (\<lambda>y. y \<noteq> ?n) ys)
            = filter (\<lambda>x. x \<notin> set folders) ys" for ys
        using mem by (induction ys) auto
      then show ?thesis using nf mem by (simp add: folder_names_Cons)
    qed
    finally show ?thesis .
  qed
qed

lemma ListFolders_loop_error:
  "\<forall>info \<in> set ok. Err info = None \<Longrightarrow> Err bad = Some err
     \<Longrightarrow> ListFolders_loop os c prefix (ok @ bad # rest) folders seen = Inl err"
proof (induction ok arbitrary: folders seen)
  case Nil
  then show ?case by simp
next
  case (Cons info ok)
  then have e: "Err info = None" by simp
  show ?case
    using Cons by (simp add: ListFolders_loop_step [OF e] del: ListFolders_loop.simps)
qed

lemma ListFolders_valid:
  assumes "prefix = [] \<or> ValidatePath os prefix = None"
    and "listObjects be (bucketName c)
           \<lparr>Prefix = (if buildPath os c prefix = [] then [] else buildPath os c prefix @ ''/''),
            Recursive = False\<rparr> (fst w) = (listing, s1)"
  shows "ListFolders os c be prefix w =
     (ListFolders_loop os c prefix listing [] (\<lambda>_. False),
      (s1, snd w @ [ReqListObjects (bucketName c)
           \<lparr>Prefix = (if buildPath os c prefix = [] then [] else buildPath os c prefix @ ''/''),
            Recursive = False\<rparr>]))"
proof -
  have v: "(if prefix \<noteq> [] then ValidatePath os prefix else None) = None"
    using assms(1) by auto
  have p: "(if buildPath os c prefix \<noteq> [] \<and> \<not> HasSuffix (buildPath os c prefix) ''/''
            then buildPath os c prefix @ ''/'' else buildPath os c prefix)
           = (if buildPath os c prefix = [] then [] else buildPath os c prefix @ ''/'')"
    by (simp add: buildPath_no_trailing_slash)
  show ?thesis
    unfolding ListFolders_def v Let_def p using assms(2) by (simp add: issue_def)
qed




section \<open>Validation before requests: claims\<close>

lemma ComposeObject_sources_invalid:
  assumes "\<exists>p \<in> set (map SrcObject (filter (\<lambda>src. SrcBucket src = bucketName c) srcs)).
             ValidatePath os p \<noteq> None"
  shows "\<exists>p \<in> set (map SrcObject (filter (\<lambda>src. SrcBucket src = bucketName c) srcs)).
           \<exists>err. ValidatePath os p = Some err
             \<and> ComposeObject_sources os c srcs = Inl (WrappedSourceError p err)"
  using assms
proof (induction srcs)
  case Nil
  then show ?case by simp
next
  case (Cons src srcs)
  show ?case
  proof (cases "SrcBucket src = bucketName c")
    case False
    with Cons show ?thesis by (auto split: sum.splits)
  next
    case True
    show ?thesis
    proof (cases "ValidatePath os (SrcObject src)")
      case (Some err)
      with True show ?thesis by auto
    next
      case None
      with True Cons.prems
      have "\<exists>p \<in> set (map SrcObject (filter (\<lambda>src. SrcBucket src = bucketName c) srcs)).
             ValidatePath os p \<noteq> None" by auto
      from Cons.IH [OF this] obtain p err where
        "p \<in> set (map SrcObject (filter (\<lambda>src. SrcBucket src = bucketName c) srcs))"
        "ValidatePath os p = Some err"
        "ComposeObject_sources os c srcs = Inl (WrappedSourceError p err)" by blast
      with True None show ?thesis by auto
    qed
  qed
qed

lemma ComposeObject_invalid:
  assumes "\<exists>p \<in> set (caller_paths c (CallComposeObject dst srcs opts)). ValidatePath os p \<noteq> None"
  shows "snd (ComposeObject os c be dst srcs opts w) = w
     \<and> (\<exists>p \<in> set (caller_paths c (CallComposeObject dst srcs opts)). \<exists>err.
           ValidatePath os p = Some err
           \<and> (fst (ComposeObject os c be dst srcs opts w) = Inl err
               \<or> fst (ComposeObject os c be dst srcs opts w) = Inl (WrappedSourceError p err)))"
proof (cases "ValidatePath os dst")
  case (Some err)
  then show ?thesis by (simp add: ComposeObject_def)
next
  case None
  with assms
  have "\<exists>p \<in> set (map SrcObject (filter (\<lambda>src. SrcBucket src = bucketName c) srcs)).
          ValidatePath os p \<noteq> None" by auto
  from ComposeObject_sources_invalid [OF this] obtain p err where
    p: "p \<in> set (map SrcObject (filter (\<lambda>src. SrcBucket src = bucketName c) srcs))"
    and e: "ValidatePath os p = Some err"
    and r: "ComposeObject_sources os c srcs = Inl (WrappedSourceError p err)" by blast
  have "ComposeObject os c be dst srcs opts w = (Inl (WrappedSourceError p err), w)"
    using None r by (simp add: ComposeObject_def)
  with p e show ?thesis by auto
qed

text \<open>
  Claim C2, amended. Every operation other than \<open>SelectObjectContent\<close> validates the paths
  its caller supplies (a source of \<open>ComposeObject\<close> when it lies in the configured bucket, a
  listing prefix when it is not empty) before it issues any request: when one of them is
  invalid the world is left as it was, no request issued, and the call hands back the
  validation error of an invalid path, which \<open>ComposeObject\<close> wraps for a source and
  \<open>ListObjects\<close> delivers as the entry of its channel. \<open>GetPublicURL\<close> does so once a public
  base URL is configured.
\<close>

theorem validation_before_requests:
  assumes "\<not> is_SelectObjectContent call"
    and "is_GetPublicURL call \<longrightarrow> publicBaseURL c \<noteq> []"
    and "\<exists>p \<in> set (caller_paths c call). ValidatePath os p \<noteq> None"
  shows "snd (run os c be parse now call w) = w
     \<and> (\<exists>p \<in> set (caller_paths c call). \<exists>err.
           ValidatePath os p = Some err
           \<and> (fst (run os c be parse now call w) = Some err
               \<or> fst (run os c be parse now call w) = Some (WrappedSourceError p err)))"
proof (cases call)
  case (CallComposeObject dst srcs opts)
  with ComposeObject_invalid [of c dst srcs opts os be w] assms(3)
  show ?thesis
    by (cases "ComposeObject os c be dst srcs opts w") (auto simp: failed_def err_of_def)
next
  case (CallCopyObject dst src opts)
  with assms(3) show ?thesis
    by (auto simp: failed_def err_of_def CopyObject_def split: option.splits)
next
  case (CallListObjects p recursive)
  with assms(3) show ?thesis
    by (auto simp: ListObjects_def ObjectInfo_zero_def split: if_splits)
next
  case (CallListFolders p)
  with assms(3) show ?thesis
    by (auto simp: failed_def err_of_def ListFolders_def split: if_splits)
next
  case (CallGetPublicURL p)
  with assms(2,3) show ?thesis
    by (auto simp: err_of_def GetPublicURL_def)
next
  case (CallSelectObjectContent p opts)
  with assms(1) show ?thesis by simp
next
  case (CallGetPresignedPostPolicy policy)
  with assms(3) show ?thesis by simp
qed (use assms(3) in \<open>auto simp: failed_def err_of_def StatObject_def GetObject_def PutObject_def
      RemoveObject_def GetPresignedURL_def GetPresignedURLWithParams_def GetPresignedPutURL_def
      PresignedGetObject_def PresignedPutObject_def PresignedHeadObject_def
      PresignedPostPolicyForUpload_def PresignedPostPolicyWithConditions_def
      FolderExists_def CreateFolder_def RemoveFolder_def
      GetObjectTagging_def PutObjectTagging_def RemoveObjectTagging_def
      GetObjectRetention_def PutObjectRetention_def GetObjectLegalHold_def
      PutObjectLegalHold_def\<close>)

text \<open>A put at \<open>../x\<close>: the traversal error comes back and the collaborator sees nothing.\<close>

theorem validation_before_requests_witness:
  "\<not> is_SelectObjectContent (CallPutObject ''../x'' None 0 no_opts)
   \<and> ValidatePath Unix ''../x'' = Some (TraversalError ''../x'')
   \<and> snd (run Unix example_client mem_backend Inr 0 (CallPutObject ''../x'' None 0 no_opts)
        (Map.empty, [])) = (Map.empty, [])
   \<and> fst (run Unix example_client mem_backend Inr 0 (CallPutObject ''../x'' None 0 no_opts)
        (Map.empty, [])) = Some (TraversalError ''../x'')"
proof -
  have v: "ValidatePath Unix ''../x'' = Some (TraversalError ''../x'')"
    by (simp add: ValidatePath_def ToSlash_def Separator_def HasPrefix_def)
  have h1: "\<not> is_SelectObjectContent (CallPutObject ''../x'' None 0 no_opts)" by simp
  have h2: "is_GetPublicURL (CallPutObject ''../x'' None 0 no_opts)
      \<longrightarrow> publicBaseURL example_client \<noteq> []" by simp
  have h3: "\<exists>p \<in> set (caller_paths example_client (CallPutObject ''../x'' None 0 no_opts)).
      ValidatePath Unix p \<noteq> None" using v by simp
  note t = validation_before_requests [OF h1 h2 h3, of mem_backend Inr 0 "(Map.empty, [])"]
  from t have s: "snd (run Unix example_client mem_backend Inr 0
      (CallPutObject ''../x'' None 0 no_opts) (Map.empty, [])) = (Map.empty, [])" by blast
  have f: "fst (run Unix example_client mem_backend Inr 0
      (CallPutObject ''../x'' None 0 no_opts) (Map.empty, [])) = Some (TraversalError ''../x'')"
    by (simp add: failed_def err_of_def PutObject_def v)
  from v h1 s f show ?thesis by simp
qed

text \<open>
  Claim C2 as it is stated fails on \<open>SelectObjectContent\<close>: for the path \<open>../secret\<close>, which
  \<open>ValidatePath\<close> rejects, the request goes to the collaborator with the key
  \<open>app-data/../secret\<close> and no error comes back. And \<open>GetPublicURL\<close> on a client without a
  public base URL answers that the URL is not configured, not the validation error.
\<close>

theorem SelectObjectContent_unvalidated_counterexample:
  "caller_paths example_client (CallSelectObjectContent ''../secret'' no_opts) = [''../secret'']
   \<and> ValidatePath Unix ''../secret'' = Some (TraversalError ''../secret'')
   \<and> run Unix example_client mem_backend Inr 0 (CallSelectObjectContent ''../secret'' no_opts)
        (Map.empty, [])
       = (None, (Map.empty, [ReqSelectObjectContent ''b'' ''app-data/../secret'' no_opts]))
   \<and> run Unix (example_client\<lparr>publicBaseURL := []\<rparr>) mem_backend Inr 0
        (CallGetPublicURL ''../secret'') (Map.empty, [])
       = (Some PublicURLNotConfigured, (Map.empty, []))"
  by (simp add: ValidatePath_def ToSlash_def Separator_def HasPrefix_def failed_def err_of_def
      SelectObjectContent_def call_forward_def issue_def mem_backend_def unsupported_def
      buildPath_def example_client_def Trim_def GetPublicURL_def)

end
